theory Spec2Isabelle
  imports Complex_Main
begin

section \<open>JavaScript numbers\<close>

text \<open>
  The sources compute with JavaScript numbers, which are IEEE binary64 numbers. A finite
  number is a \<^typ>\<open>real\<close>; \<open>NaN\<close> and the two infinities are kept apart, because
  \<open>Math.max\<close>, \<open>Math.min\<close> and \<open>!==\<close> treat them differently. The sign of zero is
  not modelled: a zero divisor is \<open>+0\<close>. Element sizes, pointer coordinates and the
  slider's props are finite numbers.
\<close>

datatype jsnum = Num real | PosInf | NegInf | NaN

subsection \<open>Rounding to binary64\<close>

text \<open>The nearest integer, a tie going to the even one.\<close>

definition round_even :: "real \<Rightarrow> int" where
  "round_even t =
     (let f = \<lfloor>t\<rfloor>; r = t - of_int f
      in if r < 1 / 2 then f
         else if 1 / 2 < r then f + 1
         else if even f then f else f + 1)"

text \<open>
  The binary exponent of a number other than zero, not below the least exponent of a
  normal number: under \<open>2 ^ -1022\<close> the numbers are evenly spaced.
\<close>

definition binary_exp :: "real \<Rightarrow> int" where
  "binary_exp x = max \<lfloor>log 2 \<bar>x\<bar>\<rfloor> (- 1022)"

text \<open>
  The binary64 result of an operation whose exact result is \<open>x\<close>: the nearest multiple
  of the unit in the last of 53 binary places, a tie going to the even multiple, and an
  infinity when that reaches \<open>2 ^ 1024\<close>.
\<close>

definition fl64 :: "real \<Rightarrow> jsnum" where
  "fl64 x =
     (if x = 0 then Num 0
      else
        let u = 2 powi (binary_exp x - 52);
            y = of_int (round_even (x / u)) * u
        in if 2 ^ 1024 \<le> \<bar>y\<bar> then (if 0 < x then PosInf else NegInf) else Num y)"

text \<open>The four operations of the slider's arithmetic, on all numbers.\<close>

fun d_add :: "jsnum \<Rightarrow> jsnum \<Rightarrow> jsnum" where
  "d_add (Num a) (Num b) = fl64 (a + b)"
| "d_add NaN y = NaN"
| "d_add x NaN = NaN"
| "d_add PosInf NegInf = NaN"
| "d_add NegInf PosInf = NaN"
| "d_add PosInf y = PosInf"
| "d_add NegInf y = NegInf"
| "d_add (Num a) y = y"

fun d_sub :: "jsnum \<Rightarrow> jsnum \<Rightarrow> jsnum" where
  "d_sub (Num a) (Num b) = fl64 (a - b)"
| "d_sub NaN y = NaN"
| "d_sub x NaN = NaN"
| "d_sub PosInf PosInf = NaN"
| "d_sub NegInf NegInf = NaN"
| "d_sub PosInf y = PosInf"
| "d_sub NegInf y = NegInf"
| "d_sub (Num a) PosInf = NegInf"
| "d_sub (Num a) NegInf = PosInf"

fun d_mul :: "jsnum \<Rightarrow> jsnum \<Rightarrow> jsnum" where
  "d_mul (Num a) (Num b) = fl64 (a * b)"
| "d_mul NaN y = NaN"
| "d_mul x NaN = NaN"
| "d_mul PosInf (Num c) = (if 0 < c then PosInf else if c < 0 then NegInf else NaN)"
| "d_mul NegInf (Num c) = (if 0 < c then NegInf else if c < 0 then PosInf else NaN)"
| "d_mul (Num c) PosInf = (if 0 < c then PosInf else if c < 0 then NegInf else NaN)"
| "d_mul (Num c) NegInf = (if 0 < c then NegInf else if c < 0 then PosInf else NaN)"
| "d_mul PosInf PosInf = PosInf"
| "d_mul NegInf NegInf = PosInf"
| "d_mul PosInf NegInf = NegInf"
| "d_mul NegInf PosInf = NegInf"

fun d_div :: "jsnum \<Rightarrow> jsnum \<Rightarrow> jsnum" where
  "d_div (Num a) (Num b) =
     (if b \<noteq> 0 then fl64 (a / b)
      else if 0 < a then PosInf
      else if a < 0 then NegInf
      else NaN)"
| "d_div NaN y = NaN"
| "d_div x NaN = NaN"
| "d_div (Num a) y = Num 0"
| "d_div PosInf (Num c) = (if 0 \<le> c then PosInf else NegInf)"
| "d_div NegInf (Num c) = (if 0 \<le> c then NegInf else PosInf)"
| "d_div x y = NaN"

text \<open>\<open>Math.round\<close>: the nearest integer, a tie going up. It does not round again.\<close>

definition math_round :: "real \<Rightarrow> real" where
  "math_round a = of_int \<lfloor>a + 1 / 2\<rfloor>"

fun js_round :: "jsnum \<Rightarrow> jsnum" where
  "js_round (Num a) = Num (math_round a)"
| "js_round PosInf = PosInf"
| "js_round NegInf = NegInf"
| "js_round NaN = NaN"

text \<open>\<open>Math.min(c, x)\<close> and \<open>Math.max(c, x)\<close> for a finite \<open>c\<close>.\<close>

fun js_min :: "real \<Rightarrow> jsnum \<Rightarrow> jsnum" where
  "js_min c (Num a) = Num (min c a)"
| "js_min c PosInf = Num c"
| "js_min c NegInf = NegInf"
| "js_min c NaN = NaN"

fun js_max :: "real \<Rightarrow> jsnum \<Rightarrow> jsnum" where
  "js_max c (Num a) = Num (max c a)"
| "js_max c PosInf = PosInf"
| "js_max c NegInf = Num c"
| "js_max c NaN = NaN"

subsection \<open>The engine's percentages\<close>

text \<open>
  The engine's pixel coordinates and percentages are computed on the exact reals:
  \<open>a / b\<close> for finite \<open>a\<close> and \<open>b\<close>, and \<open>x * c\<close> for a finite \<open>c\<close>.
\<close>

definition js_div :: "real \<Rightarrow> real \<Rightarrow> jsnum" where
  "js_div a b =
     (if b \<noteq> 0 then Num (a / b)
      else if 0 < a then PosInf
      else if a < 0 then NegInf
      else NaN)"

fun js_times :: "jsnum \<Rightarrow> real \<Rightarrow> jsnum" where
  "js_times (Num a) c = Num (a * c)"
| "js_times PosInf c = (if 0 < c then PosInf else if c < 0 then NegInf else NaN)"
| "js_times NegInf c = (if 0 < c then NegInf else if c < 0 then PosInf else NaN)"
| "js_times NaN c = NaN"

section \<open>The document\<close>

text \<open>
  A \<open>DOMRect\<close>, and an element with its identity, its bounding rectangle and its
  \<open>parentElement\<close>. An event is a \<open>MouseEvent\<close> with its target and client
  coordinates, or a \<open>TouchEvent\<close> with its target and its list of active touch points.
\<close>

record rect =
  r_left :: real
  r_top :: real
  r_width :: real
  r_height :: real

datatype element =
  Element (elId: nat) (getBoundingClientRect: rect) (parentElement: "element option")

datatype dom_event =
  MouseEvent element real real
  | TouchEvent element "(real \<times> real) list"

fun ev_target :: "dom_event \<Rightarrow> element" where
  "ev_target (MouseEvent t x y) = t"
| "ev_target (TouchEvent t ps) = t"

text \<open>\<open>"touches" in _event\<close>.\<close>

fun has_touches :: "dom_event \<Rightarrow> bool" where
  "has_touches (MouseEvent t x y) = False"
| "has_touches (TouchEvent t ps) = True"

text \<open>
  \<open>"touches" in _event ? _event.touches[0] : _event\<close>: the client coordinates the
  handlers read, \<open>None\<close> for the \<open>undefined\<close> that an empty touch list gives.
\<close>

fun ev_point :: "dom_event \<Rightarrow> (real \<times> real) option" where
  "ev_point (MouseEvent t x y) = Some (x, y)"
| "ev_point (TouchEvent t []) = None"
| "ev_point (TouchEvent t (p # ps)) = Some p"

text \<open>
  \<open>Element.closest(selector)\<close>: the nearest inclusive ancestor that matches. Which
  element matches which selector is the browser's business and is a parameter.
\<close>

fun closest :: "(string \<Rightarrow> element \<Rightarrow> bool) \<Rightarrow> string \<Rightarrow> element \<Rightarrow> element option" where
  "closest mt sel (Element i r p) =
     (if mt sel (Element i r p) then Some (Element i r p)
      else case p of None \<Rightarrow> None | Some q \<Rightarrow> closest mt sel q)"

text \<open>\<open>node.contains(other)\<close>: \<open>other\<close> is \<open>node\<close> or one of its descendants.\<close>

fun contains :: "element \<Rightarrow> element \<Rightarrow> bool" where
  "contains node (Element i r p) =
     (elId node = i \<or> (case p of None \<Rightarrow> False | Some q \<Rightarrow> contains node q))"

section \<open>The drag engine: useDraggable\<close>

record position =
  pos_x :: jsnum
  pos_y :: jsnum

datatype ignore_option =
  NoIgnore
  | IgnoreSelector string
  | IgnoreRef "element option"

record config =
  centered :: bool
  useOffset :: bool
  ignore :: ignore_option

datatype handler = OnMouseMove | OnMouseUp

text \<open>
  The state of one engine instance: the two refs it returns, the three variables of its
  closure, the listeners it has on the document, and the number of
  \<open>usedraggable-update\<close> broadcasts it has made. The listeners that the watcher on
  \<open>eventTarget\<close> puts on the event target (lines 67 to 83) decide when onMouseDown is
  called; the handlers below take the event as an argument.
\<close>

record engine =
  position :: position
  isDragging :: bool
  parentRect :: "rect option"
  elementRect :: "rect option"
  relativeClickOffset :: "real \<times> real"
  docListeners :: "(string \<times> handler) list"
  broadcasts :: nat

definition init_engine :: "position option \<Rightarrow> engine" where
  "init_engine initialPos =
     \<lparr> position = (case initialPos of None \<Rightarrow> \<lparr> pos_x = Num 0, pos_y = Num 0 \<rparr> | Some p \<Rightarrow> p),
       isDragging = False,
       parentRect = None,
       elementRect = None,
       relativeClickOffset = (0, 0),
       docListeners = [],
       broadcasts = 0 \<rparr>"

text \<open>
  \<open>document.addEventListener\<close> does not add a listener that is already there;
  \<open>document.removeEventListener\<close> takes it away.
\<close>

definition addEventListener ::
  "string \<Rightarrow> handler \<Rightarrow> (string \<times> handler) list \<Rightarrow> (string \<times> handler) list" where
  "addEventListener ty h ls = (if (ty, h) \<in> set ls then ls else ls @ [(ty, h)])"

definition removeEventListener ::
  "string \<Rightarrow> handler \<Rightarrow> (string \<times> handler) list \<Rightarrow> (string \<times> handler) list" where
  "removeEventListener ty h ls = removeAll (ty, h) ls"

text \<open>Lines 95 to 122 of onMouseMove: the clamped pixel coordinates and the percentages.\<close>

definition move_newX :: "config \<Rightarrow> rect \<Rightarrow> rect \<Rightarrow> real \<Rightarrow> real \<Rightarrow> real" where
  "move_newX cfg pr er offsetX clientX =
     (let newX = clientX - r_left pr - offsetX;
          maxX = r_width pr - (if centered cfg then r_width er / 2 else r_width er);
          minX = (if centered cfg then r_width er / 2 else 0)
      in max minX (min maxX newX))"

definition move_newY :: "config \<Rightarrow> rect \<Rightarrow> rect \<Rightarrow> real \<Rightarrow> real \<Rightarrow> real" where
  "move_newY cfg pr er offsetY clientY =
     (let newY = clientY - r_top pr - offsetY;
          maxY = r_height pr - (if centered cfg then r_height er / 2 else r_height er);
          minY = (if centered cfg then r_height er / 2 else 0)
      in max minY (min maxY newY))"

definition move_percentX :: "config \<Rightarrow> rect \<Rightarrow> rect \<Rightarrow> real \<Rightarrow> jsnum" where
  "move_percentX cfg pr er newX =
     (let offsetWidth = r_width pr - r_width er
      in if useOffset cfg
         then (if 0 < offsetWidth then Num ((newX / offsetWidth) * 100) else Num 0)
         else js_times (js_div newX (r_width pr)) 100)"

definition move_percentY :: "rect \<Rightarrow> real \<Rightarrow> jsnum" where
  "move_percentY pr newY = js_times (js_div newY (r_height pr)) 100"

definition onMouseMove :: "config \<Rightarrow> engine \<Rightarrow> dom_event \<Rightarrow> engine" where
  "onMouseMove cfg st ev =
     (if \<not> isDragging st then st
      else case parentRect st of None \<Rightarrow> st | Some pr \<Rightarrow>
        (case elementRect st of None \<Rightarrow> st | Some er \<Rightarrow>
          (case ev_point ev of None \<Rightarrow> st | Some (clientX, clientY) \<Rightarrow>
            (let offsetX = fst (relativeClickOffset st);
                 offsetY = snd (relativeClickOffset st);
                 newX = move_newX cfg pr er offsetX clientX;
                 newY = move_newY cfg pr er offsetY clientY;
                 percentX = move_percentX cfg pr er newX;
                 percentY = move_percentY pr newY
             in st \<lparr> position := \<lparr> pos_x = percentX, pos_y = percentY \<rparr>,
                     broadcasts := broadcasts st + 1 \<rparr>))))"

definition onMouseUp :: "engine \<Rightarrow> engine" where
  "onMouseUp st =
     st \<lparr> isDragging := False,
          docListeners :=
            removeEventListener ''touchmove'' OnMouseMove
              (removeEventListener ''touchend'' OnMouseUp
                (removeEventListener ''mouseup'' OnMouseUp
                  (removeEventListener ''mousemove'' OnMouseMove (docListeners st)))) \<rparr>"

text \<open>
  Lines 145 to 152 of onMouseDown: whether the ignore option stops the handler. An empty
  selector string is falsy, so it is no ignore option at all.
\<close>

definition ignored :: "(string \<Rightarrow> element \<Rightarrow> bool) \<Rightarrow> config \<Rightarrow> dom_event \<Rightarrow> bool" where
  "ignored mt cfg ev =
     (case ignore cfg of
        NoIgnore \<Rightarrow> False
      | IgnoreSelector sel \<Rightarrow> sel \<noteq> [] \<and> closest mt sel (ev_target ev) \<noteq> None
      | IgnoreRef None \<Rightarrow> False
      | IgnoreRef (Some g) \<Rightarrow> contains g (ev_target ev))"

text \<open>
  onMouseDown returns whether it called \<open>preventDefault\<close> on the event, and the
  engine's state after it.
\<close>

definition onMouseDown ::
  "(string \<Rightarrow> element \<Rightarrow> bool) \<Rightarrow> config \<Rightarrow> engine \<Rightarrow> dom_event \<Rightarrow> element option
     \<Rightarrow> bool \<times> engine" where
  "onMouseDown mt cfg st ev elem =
     (case elem of None \<Rightarrow> (False, st) | Some el \<Rightarrow>
       (case parentElement el of None \<Rightarrow> (False, st) | Some par \<Rightarrow>
         (if ignored mt cfg ev then (False, st)
          else case ev_point ev of None \<Rightarrow> (has_touches ev, st)
          | Some (clientX, clientY) \<Rightarrow>
            (let er = getBoundingClientRect el;
                 pr = getBoundingClientRect par
             in (has_touches ev,
                 st \<lparr> parentRect := Some pr,
                      elementRect := Some er,
                      relativeClickOffset :=
                        (clientX - r_left er - (if centered cfg then r_width er / 2 else 0),
                         clientY - r_top er - (if centered cfg then r_height er / 2 else 0)),
                      isDragging := True,
                      docListeners :=
                        addEventListener ''touchmove'' OnMouseMove
                          (addEventListener ''touchend'' OnMouseUp
                            (addEventListener ''mouseup'' OnMouseUp
                              (addEventListener ''mousemove'' OnMouseMove
                                (docListeners st)))) \<rparr>)))))"

section \<open>The slider\<close>

record props =
  modelValue :: real
  min_p :: real
  max_p :: real
  step :: real
  disabled :: bool

text \<open>The slider's engine: \<open>useDraggable({ target: thumbRef, useOffset: true })\<close>.\<close>

definition slider_config :: config where
  "slider_config = \<lparr> centered = False, useOffset = True, ignore = NoIgnore \<rparr>"

text \<open>
  The slider's arithmetic is binary64 arithmetic: every operation rounds its exact result.
\<close>

definition valueAsPercentage :: "props \<Rightarrow> jsnum" where
  "valueAsPercentage p =
     (let range = d_sub (Num (max_p p)) (Num (min_p p));
          normalizedValue = d_sub (Num (modelValue p)) (Num (min_p p))
      in d_mul (d_div normalizedValue range) (Num 100))"

text \<open>
  The callback of the watcher on \<open>position.value.x\<close>. Lines 42 to 47 compute the new
  value; the callback emits it as \<open>update:modelValue\<close> when the slider is not disabled
  and the value is not the current \<open>modelValue\<close>.
\<close>

definition watch_newValue :: "props \<Rightarrow> jsnum \<Rightarrow> jsnum" where
  "watch_newValue p newPercentageX =
     (let range = d_sub (Num (max_p p)) (Num (min_p p));
          newValue = d_add (d_mul (d_div newPercentageX (Num 100)) range) (Num (min_p p));
          newValue = (if 0 < step p
                      then d_mul (js_round (d_div newValue (Num (step p)))) (Num (step p))
                      else newValue)
      in js_max (min_p p) (js_min (max_p p) newValue))"

definition watch_position_x :: "props \<Rightarrow> jsnum \<Rightarrow> jsnum option" where
  "watch_position_x p newPercentageX =
     (if disabled p then None
      else
        let newValue = watch_newValue p newPercentageX
        in if newValue \<noteq> Num (modelValue p) then Some newValue else None)"

text \<open>Lines 68 to 72 of handleTrackClick.\<close>

definition click_effectiveWidth :: "rect \<Rightarrow> rect \<Rightarrow> real" where
  "click_effectiveWidth trackRect thumbRect = r_width trackRect - r_width thumbRect"

definition click_targetX :: "rect \<Rightarrow> rect \<Rightarrow> real \<Rightarrow> real" where
  "click_targetX trackRect thumbRect clientX =
     (let clickX = clientX - r_left trackRect in clickX - r_width thumbRect / 2)"

definition click_clampedX :: "rect \<Rightarrow> rect \<Rightarrow> real \<Rightarrow> real" where
  "click_clampedX trackRect thumbRect clientX =
     max 0 (min (click_targetX trackRect thumbRect clientX)
                (click_effectiveWidth trackRect thumbRect))"

definition click_percentage :: "rect \<Rightarrow> rect \<Rightarrow> real \<Rightarrow> real" where
  "click_percentage trackRect thumbRect clientX =
     (let effectiveWidth = click_effectiveWidth trackRect thumbRect
      in if 0 < effectiveWidth
         then (click_clampedX trackRect thumbRect clientX / effectiveWidth) * 100
         else 0)"

text \<open>Lines 74 to 79 of handleTrackClick.\<close>

definition click_newValue :: "props \<Rightarrow> real \<Rightarrow> jsnum" where
  "click_newValue p percentage =
     (let range = d_sub (Num (max_p p)) (Num (min_p p));
          newValue = d_add (d_mul (d_div (Num percentage) (Num 100)) range) (Num (min_p p));
          newValue = (if step p \<noteq> 0 \<and> 0 < step p
                      then d_mul (js_round (d_div newValue (Num (step p)))) (Num (step p))
                      else newValue)
      in js_max (min_p p) (js_min (max_p p) newValue))"

text \<open>
  What one call of handleTrackClick does: the engine's state when it is over, the value
  it emitted, and whether it went on to call the engine's onMouseDown.
\<close>

record click_result =
  cr_engine :: engine
  cr_emitted :: "jsnum option"
  cr_dragInit :: bool

text \<open>
  \<open>thumbAfterTick\<close> is what \<open>thumbRef.value\<close> holds once \<open>nextTick\<close> has resolved,
  with the rectangle the thumb has after that render. The assignment to \<open>position\<close>
  may wake the watcher; its callback is \<open>watch_position_x\<close> above and its emission is
  not part of this result.
\<close>

definition handleTrackClick ::
  "(string \<Rightarrow> element \<Rightarrow> bool) \<Rightarrow> props \<Rightarrow> element option \<Rightarrow> element option \<Rightarrow> element option
     \<Rightarrow> engine \<Rightarrow> dom_event \<Rightarrow> click_result" where
  "handleTrackClick mt p trackRef thumbRef thumbAfterTick st ev =
     (if disabled p then \<lparr> cr_engine = st, cr_emitted = None, cr_dragInit = False \<rparr>
      else case trackRef of
        None \<Rightarrow> \<lparr> cr_engine = st, cr_emitted = None, cr_dragInit = False \<rparr>
      | Some track \<Rightarrow>
       (case thumbRef of
          None \<Rightarrow> \<lparr> cr_engine = st, cr_emitted = None, cr_dragInit = False \<rparr>
        | Some thumb \<Rightarrow>
         (case ev_point ev of
            None \<Rightarrow> \<lparr> cr_engine = st, cr_emitted = None, cr_dragInit = False \<rparr>
          | Some (clientX, clientY) \<Rightarrow>
            (let trackRect = getBoundingClientRect track;
                 thumbRect = getBoundingClientRect thumb;
                 percentage = click_percentage trackRect thumbRect clientX;
                 st1 = st \<lparr> position := \<lparr> pos_x = Num percentage, pos_y = Num 0 \<rparr> \<rparr>;
                 newValue = click_newValue p percentage
             in \<lparr> cr_engine = snd (onMouseDown mt slider_config st1 ev thumbAfterTick),
                  cr_emitted = (if newValue \<noteq> Num (modelValue p) then Some newValue else None),
                  cr_dragInit = True \<rparr>))))"

text \<open>
  A pointer move as the slider sees it: the engine's onMouseMove, then the watcher's
  callback when \<open>position.value.x\<close> has changed.
\<close>

definition slider_onMouseMove :: "props \<Rightarrow> engine \<Rightarrow> dom_event \<Rightarrow> engine \<times> jsnum option" where
  "slider_onMouseMove p st ev =
     (let st' = onMouseMove slider_config st ev
      in (st',
          if pos_x (position st') \<noteq> pos_x (position st)
          then watch_position_x p (pos_x (position st'))
          else None))"

text \<open>A coordinate of the position is a finite number between 0 and 100.\<close>

fun in_percent_range :: "jsnum \<Rightarrow> bool" where
  "in_percent_range (Num a) = (0 \<le> a \<and> a \<le> 100)"
| "in_percent_range PosInf = False"
| "in_percent_range NegInf = False"
| "in_percent_range NaN = False"

text \<open>
  \<open>v\<close> is a whole number of steps \<open>s\<close> away from \<open>lo\<close>: the quotient
  \<open>(v - lo) / s\<close> is an integer.
\<close>

definition on_step_grid :: "real \<Rightarrow> real \<Rightarrow> real \<Rightarrow> bool" where
  "on_step_grid lo s v = (of_int \<lfloor>(v - lo) / s\<rfloor> * s = v - lo)"

section \<open>Test fixtures and the predicates of the properties\<close>

text \<open>
  A 20 pixel element at (40, 40) in a 100 pixel parent, a drag session on it started at
  its centre, a 200 pixel track with a 20 pixel thumb, an element wider than its parent,
  and a close button with an icon inside the element; then the two forms a value emitted
  with \<open>min \<le> max\<close> can take.
\<close>

definition fixture_parent :: element where
  "fixture_parent = Element 0 \<lparr> r_left = 0, r_top = 0, r_width = 100, r_height = 100 \<rparr> None"

definition fixture_target :: element where
  "fixture_target =
     Element 1 \<lparr> r_left = 40, r_top = 40, r_width = 20, r_height = 20 \<rparr> (Some fixture_parent)"

definition no_match :: "string \<Rightarrow> element \<Rightarrow> bool" where
  "no_match sel e = False"

definition fixture_config :: "bool \<Rightarrow> bool \<Rightarrow> config" where
  "fixture_config c u = \<lparr> centered = c, useOffset = u, ignore = NoIgnore \<rparr>"

definition fixture_dragging :: "bool \<Rightarrow> bool \<Rightarrow> engine" where
  "fixture_dragging c u =
     snd (onMouseDown no_match (fixture_config c u) (init_engine None)
            (MouseEvent fixture_target 50 50) (Some fixture_target))"

text \<open>
  \<open>v\<close> is the binary64 product of an integer and \<open>s\<close>: what
  \<open>Math.round(q) * s\<close> computes for some quotient \<open>q\<close>.
\<close>

definition double_multiple :: "real \<Rightarrow> real \<Rightarrow> bool" where
  "double_multiple s v = (\<exists>k::int. fl64 (of_int k * s) = Num v)"

definition step_or_end :: "props \<Rightarrow> real \<Rightarrow> bool" where
  "step_or_end p v =
     (min_p p \<le> v \<and> v \<le> max_p p
      \<and> (step p \<le> 0 \<or> v = min_p p \<or> v = max_p p \<or> double_multiple (step p) v))"

fun emitted_step_or_end :: "props \<Rightarrow> jsnum \<Rightarrow> bool" where
  "emitted_step_or_end p (Num v) = step_or_end p v"
| "emitted_step_or_end p PosInf = False"
| "emitted_step_or_end p NegInf = False"
| "emitted_step_or_end p NaN = False"

definition fixture_props :: "real \<Rightarrow> real \<Rightarrow> real \<Rightarrow> real \<Rightarrow> bool \<Rightarrow> props" where
  "fixture_props v lo hi s d = \<lparr> modelValue = v, min_p = lo, max_p = hi, step = s, disabled = d \<rparr>"

definition fixture_track :: element where
  "fixture_track = Element 2 \<lparr> r_left = 30, r_top = 0, r_width = 200, r_height = 24 \<rparr> None"

definition fixture_thumb :: "real \<Rightarrow> element" where
  "fixture_thumb x =
     Element 3 \<lparr> r_left = x, r_top = 2, r_width = 20, r_height = 20 \<rparr> (Some fixture_track)"

definition fixture_wide :: element where
  "fixture_wide =
     Element 4 \<lparr> r_left = 0, r_top = 40, r_width = 120, r_height = 20 \<rparr> (Some fixture_parent)"

definition fixture_button :: element where
  "fixture_button =
     Element 7 \<lparr> r_left = 52, r_top = 42, r_width = 6, r_height = 6 \<rparr> (Some fixture_target)"

definition fixture_icon :: element where
  "fixture_icon =
     Element 8 \<lparr> r_left = 53, r_top = 43, r_width = 4, r_height = 4 \<rparr> (Some fixture_button)"

definition button_match :: "string \<Rightarrow> element \<Rightarrow> bool" where
  "button_match sel e = (sel = ''.close-button'' \<and> elId e = 7)"

section \<open>Auxiliary facts and the properties\<close>

lemma fl64_zero: "fl64 0 = Num 0"
  by (simp add: fl64_def)

lemma floor_log2_at:
  fixes x :: real
  assumes "2 powi e \<le> x" "x < 2 powi (e + 1)"
  shows "\<lfloor>log 2 x\<rfloor> = e"
proof -
  have "(0::real) < 2 powi e" by simp
  then have pos: "0 < x" using assms(1) by linarith
  have a: "(2::real) powr (of_int e) = 2 powi e" by (simp add: powr_real_of_int')
  have b: "(2::real) powr (of_int e + 1) = 2 powi (e + 1)"
    using powr_real_of_int' [of "2::real" "e + 1"] by simp
  show ?thesis
    using assms pos floor_log_eq_powr_iff [of x 2 e] a b by simp
qed

lemma floor_log2_bounds:
  fixes x :: real
  assumes "0 < x"
  shows "2 powi \<lfloor>log 2 x\<rfloor> \<le> x \<and> x < 2 powi (\<lfloor>log 2 x\<rfloor> + 1)"
proof -
  let ?e = "\<lfloor>log 2 x\<rfloor>"
  have a: "(2::real) powr (of_int ?e) = 2 powi ?e" by (simp add: powr_real_of_int')
  have b: "(2::real) powr (of_int ?e + 1) = 2 powi (?e + 1)"
    using powr_real_of_int' [of "2::real" "?e + 1"] by simp
  show ?thesis
    using assms floor_log_eq_powr_iff [of x 2 ?e] a b by simp
qed

lemma binary_exp_at:
  assumes "2 powi e \<le> \<bar>x\<bar>" "\<bar>x\<bar> < 2 powi (e + 1)"
  shows "binary_exp x = max e (- 1022)"
  using floor_log2_at [OF assms] by (simp add: binary_exp_def)

lemma fl64_at:
  assumes "2 powi e \<le> \<bar>x\<bar>" "\<bar>x\<bar> < 2 powi (e + 1)"
  shows "fl64 x =
     (let u = 2 powi (max e (- 1022) - 52);
          y = of_int (round_even (x / u)) * u
      in if 2 ^ 1024 \<le> \<bar>y\<bar> then (if 0 < x then PosInf else NegInf) else Num y)"
proof -
  have "(0::real) < 2 powi e" by simp
  then have "0 < \<bar>x\<bar>" using assms(1) by linarith
  then have "x \<noteq> 0" by simp
  then show ?thesis by (simp add: fl64_def binary_exp_at [OF assms])
qed

lemma fl64_not_NaN: "fl64 x \<noteq> NaN"
  by (simp add: fl64_def Let_def)

lemma round_even_error: "\<bar>of_int (round_even t) - t\<bar> \<le> 1 / 2"
  unfolding round_even_def Let_def by (auto split: if_splits)

lemma ulp_half_bound:
  assumes "x \<noteq> 0"
  shows "2 powi (binary_exp x - 52) / 2 \<le> \<bar>x\<bar> / 2 ^ 53 + 1 / 2 ^ 1075"
proof (cases "- 1022 \<le> \<lfloor>log 2 \<bar>x\<bar>\<rfloor>")
  case True
  then have e: "binary_exp x = \<lfloor>log 2 \<bar>x\<bar>\<rfloor>" by (simp add: binary_exp_def)
  have "2 powi (binary_exp x) \<le> \<bar>x\<bar>"
    using floor_log2_bounds [of "\<bar>x\<bar>"] assms e by simp
  moreover have "(2::real) powi (binary_exp x - 52) / 2 = 2 powi (binary_exp x) / 2 ^ 53"
    by (simp add: power_int_diff)
  ultimately have "(2::real) powi (binary_exp x - 52) / 2 \<le> \<bar>x\<bar> / 2 ^ 53"
    by (simp add: divide_right_mono)
  moreover have "(0::real) \<le> 1 / 2 ^ 1075" by simp
  ultimately show ?thesis by linarith
next
  case False
  then have e: "binary_exp x = - 1022" by (simp add: binary_exp_def)
  have "(2::real) powi (binary_exp x - 52) / 2 = 1 / 2 ^ 1075"
    unfolding e by (simp add: power_int_minus field_simps)
  then show ?thesis by simp
qed

lemma fl64_error:
  assumes "\<bar>x\<bar> \<le> 2 ^ 1023"
  shows "\<exists>y. fl64 x = Num y \<and> \<bar>y - x\<bar> \<le> \<bar>x\<bar> / 2 ^ 53 + 1 / 2 ^ 1075"
proof (cases "x = 0")
  case True
  then show ?thesis by (simp add: fl64_zero)
next
  case False
  define u :: real where "u = 2 powi (binary_exp x - 52)"
  define y where "y = of_int (round_even (x / u)) * u"
  have upos: "0 < u" by (simp add: u_def)
  have "\<bar>y - x\<bar> = \<bar>of_int (round_even (x / u)) - x / u\<bar> * u"
  proof -
    have "y - x = (of_int (round_even (x / u)) - x / u) * u"
      using upos by (simp add: y_def field_simps)
    then show ?thesis using upos by (simp add: abs_mult)
  qed
  also have "\<dots> \<le> 1 / 2 * u"
    using round_even_error [of "x / u"] upos by (intro mult_right_mono) auto
  finally have err: "\<bar>y - x\<bar> \<le> u / 2" by simp
  have half: "u / 2 \<le> \<bar>x\<bar> / 2 ^ 53 + 1 / 2 ^ 1075"
    unfolding u_def using False by (rule ulp_half_bound)
  have bound: "\<bar>y - x\<bar> \<le> \<bar>x\<bar> / 2 ^ 53 + 1 / 2 ^ 1075"
    using err half by linarith
  have "\<bar>y\<bar> \<le> \<bar>x\<bar> + \<bar>y - x\<bar>" by linarith
  also have "\<dots> \<le> 2 ^ 1023 + (2 ^ 1023 / 2 ^ 53 + 1 / 2 ^ 1075)"
  proof -
    have "\<bar>x\<bar> / 2 ^ 53 \<le> 2 ^ 1023 / 2 ^ 53" using assms by (simp add: divide_right_mono)
    then show ?thesis using bound assms by linarith
  qed
  also have "\<dots> < (2::real) ^ 1024" by simp
  finally have "\<not> 2 ^ 1024 \<le> \<bar>y\<bar>" by simp
  then have "fl64 x = Num y"
    using False by (simp add: fl64_def Let_def u_def y_def)
  then show ?thesis using bound by blast
qed

lemma clamp_bounds:
  fixes lo hi x :: real
  shows "lo \<le> hi \<Longrightarrow> lo \<le> max lo (min hi x) \<and> max lo (min hi x) \<le> hi"
  by auto

lemma clamp_cases:
  fixes lo hi x :: real
  shows "lo \<le> hi \<Longrightarrow> max lo (min hi x) = lo \<or> max lo (min hi x) = hi \<or> max lo (min hi x) = x"
  by auto

lemma ratio_percent:
  fixes a b :: real
  assumes "0 \<le> a" "a \<le> b" "0 < b"
  shows "0 \<le> a / b * 100 \<and> a / b * 100 \<le> 100"
  using assms by (simp add: field_simps)

lemma move_newX_plain:
  assumes "\<not> centered cfg" "r_width er \<le> r_width pr"
  shows "0 \<le> move_newX cfg pr er ox cx \<and> move_newX cfg pr er ox cx \<le> r_width pr - r_width er"
  using assms by (simp add: move_newX_def Let_def)

lemma move_newX_plain_over:
  assumes "\<not> centered cfg" "r_width pr < r_width er"
  shows "move_newX cfg pr er ox cx = 0"
  using assms by (simp add: move_newX_def Let_def)

lemma move_newX_centered:
  assumes "centered cfg" "r_width er \<le> r_width pr"
  shows "r_width er / 2 \<le> move_newX cfg pr er ox cx
         \<and> move_newX cfg pr er ox cx \<le> r_width pr - r_width er / 2"
  using assms by (simp add: move_newX_def Let_def)

lemma move_newY_plain:
  assumes "\<not> centered cfg" "r_height er \<le> r_height pr"
  shows "0 \<le> move_newY cfg pr er oy cy \<and> move_newY cfg pr er oy cy \<le> r_height pr - r_height er"
  using assms by (simp add: move_newY_def Let_def)

lemma move_newY_plain_over:
  assumes "\<not> centered cfg" "r_height pr < r_height er"
  shows "move_newY cfg pr er oy cy = 0"
  using assms by (simp add: move_newY_def Let_def)

lemma move_newY_centered:
  assumes "centered cfg" "r_height er \<le> r_height pr"
  shows "r_height er / 2 \<le> move_newY cfg pr er oy cy
         \<and> move_newY cfg pr er oy cy \<le> r_height pr - r_height er / 2"
  using assms by (simp add: move_newY_def Let_def)

lemma percent_of_size:
  assumes "0 \<le> a" "a \<le> b" "0 < b"
  shows "in_percent_range (js_times (js_div a b) 100)"
  using assms ratio_percent [of a b] by (simp add: js_div_def)

lemma move_newX_within:
  assumes "0 \<le> r_width er" "0 < r_width pr" "centered cfg \<longrightarrow> r_width er \<le> r_width pr"
  shows "0 \<le> move_newX cfg pr er ox cx \<and> move_newX cfg pr er ox cx \<le> r_width pr"
proof (cases "centered cfg")
  case True
  then show ?thesis using assms move_newX_centered [of cfg er pr ox cx] by auto
next
  case False
  show ?thesis
  proof (cases "r_width er \<le> r_width pr")
    case True
    then show ?thesis using False assms move_newX_plain [of cfg er pr ox cx] by auto
  next
    case over: False
    then show ?thesis using False assms move_newX_plain_over [of cfg pr er ox cx] by auto
  qed
qed

lemma move_newY_within:
  assumes "0 \<le> r_height er" "0 < r_height pr" "centered cfg \<longrightarrow> r_height er \<le> r_height pr"
  shows "0 \<le> move_newY cfg pr er oy cy \<and> move_newY cfg pr er oy cy \<le> r_height pr"
proof (cases "centered cfg")
  case True
  then show ?thesis using assms move_newY_centered [of cfg er pr oy cy] by auto
next
  case False
  show ?thesis
  proof (cases "r_height er \<le> r_height pr")
    case True
    then show ?thesis using False assms move_newY_plain [of cfg er pr oy cy] by auto
  next
    case over: False
    then show ?thesis using False assms move_newY_plain_over [of cfg pr er oy cy] by auto
  qed
qed

lemma move_percentX_offset:
  assumes "useOffset cfg" "\<not> centered cfg"
  shows "in_percent_range (move_percentX cfg pr er (move_newX cfg pr er ox cx))"
proof (cases "0 < r_width pr - r_width er")
  case True
  then have "r_width er \<le> r_width pr" by simp
  from move_newX_plain [OF assms(2) this, of ox cx] True
  have "0 \<le> move_newX cfg pr er ox cx / (r_width pr - r_width er) * 100
        \<and> move_newX cfg pr er ox cx / (r_width pr - r_width er) * 100 \<le> 100"
    using ratio_percent by blast
  then show ?thesis using True assms by (simp add: move_percentX_def Let_def)
next
  case False
  then show ?thesis using assms by (simp add: move_percentX_def Let_def)
qed

lemma move_percentX_full:
  assumes "\<not> useOffset cfg" "0 \<le> r_width er" "0 < r_width pr"
    "centered cfg \<longrightarrow> r_width er \<le> r_width pr"
  shows "in_percent_range (move_percentX cfg pr er (move_newX cfg pr er ox cx))"
  using assms move_newX_within [of er pr cfg ox cx] percent_of_size
  by (simp add: move_percentX_def Let_def)

lemma move_percentY_full:
  assumes "0 \<le> r_height er" "0 < r_height pr"
    "centered cfg \<longrightarrow> r_height er \<le> r_height pr"
  shows "in_percent_range (move_percentY pr (move_newY cfg pr er oy cy))"
  using assms move_newY_within [of er pr cfg oy cy] percent_of_size
  by (simp add: move_percentY_def)

lemma onMouseMove_dragging:
  assumes "isDragging st" "parentRect st = Some pr" "elementRect st = Some er"
    "ev_point ev = Some (cx, cy)"
  shows "onMouseMove cfg st ev =
     st \<lparr> position :=
            \<lparr> pos_x = move_percentX cfg pr er
                        (move_newX cfg pr er (fst (relativeClickOffset st)) cx),
              pos_y = move_percentY pr
                        (move_newY cfg pr er (snd (relativeClickOffset st)) cy) \<rparr>,
          broadcasts := broadcasts st + 1 \<rparr>"
  using assms by (simp add: onMouseMove_def Let_def)

text \<open>
  Claim C1, as the code has it. During a drag session, a pointer move leaves
  \<open>position.x\<close> and \<open>position.y\<close> between 0 and 100, wherever the pointer is, when
  the captured parent box has a positive height (and a positive width unless
  \<open>useOffset\<close> is on), the element's box has no negative size, and \<open>centered\<close> is
  either off, or on without \<open>useOffset\<close> for an element no larger than its parent.
\<close>

theorem onMouseMove_position_in_range:
  assumes "isDragging st" "parentRect st = Some pr" "elementRect st = Some er"
    and "ev_point ev = Some (cx, cy)"
    and "0 \<le> r_width er" "0 \<le> r_height er"
    and "0 < r_height pr" "useOffset cfg \<or> 0 < r_width pr"
    and "centered cfg \<longrightarrow>
           \<not> useOffset cfg \<and> r_width er \<le> r_width pr \<and> r_height er \<le> r_height pr"
  shows "in_percent_range (pos_x (position (onMouseMove cfg st ev)))
         \<and> in_percent_range (pos_y (position (onMouseMove cfg st ev)))"
proof -
  have x: "in_percent_range (move_percentX cfg pr er
             (move_newX cfg pr er (fst (relativeClickOffset st)) cx))"
  proof (cases "useOffset cfg")
    case True
    then show ?thesis using assms(9) move_percentX_offset by blast
  next
    case False
    then show ?thesis using assms(5,8,9) move_percentX_full by blast
  qed
  have y: "in_percent_range (move_percentY pr
             (move_newY cfg pr er (snd (relativeClickOffset st)) cy))"
    using assms(6,7,9) move_percentY_full by blast
  show ?thesis
    using x y by (simp add: onMouseMove_dragging [OF assms(1-4)])
qed

lemma fixture_dragging_eq:
  "fixture_dragging c u =
     \<lparr> position = \<lparr> pos_x = Num 0, pos_y = Num 0 \<rparr>,
       isDragging = True,
       parentRect = Some \<lparr> r_left = 0, r_top = 0, r_width = 100, r_height = 100 \<rparr>,
       elementRect = Some \<lparr> r_left = 40, r_top = 40, r_width = 20, r_height = 20 \<rparr>,
       relativeClickOffset = (if c then (0, 0) else (10, 10)),
       docListeners = [(''mousemove'', OnMouseMove), (''mouseup'', OnMouseUp),
                       (''touchend'', OnMouseUp), (''touchmove'', OnMouseMove)],
       broadcasts = 0 \<rparr>"
  by (simp add: fixture_dragging_def onMouseDown_def fixture_target_def fixture_parent_def
      fixture_config_def ignored_def init_engine_def addEventListener_def Let_def)

text \<open>
  Claim C1 as stated fails with \<open>centered\<close> and \<open>useOffset\<close> both on: a 20 pixel
  element in a 100 pixel parent, picked up at its centre and dragged far to the right, is
  clamped to 90 pixels and divided by the offset width 80, which gives 112.5.
\<close>

theorem onMouseMove_position_counterexample:
  "pos_x (position (onMouseMove (fixture_config True True) (fixture_dragging True True)
                      (MouseEvent fixture_target 1000 50))) = Num (225 / 2)
   \<and> \<not> in_percent_range (pos_x (position (onMouseMove (fixture_config True True)
                      (fixture_dragging True True) (MouseEvent fixture_target 1000 50))))"
  by (simp add: fixture_dragging_eq fixture_config_def onMouseMove_def move_newX_def
      move_newY_def move_percentX_def move_percentY_def js_div_def Let_def)

text \<open>
  The theorem for claim C1 at the same element, dragged far out to the right and above
  the parent: with \<open>useOffset\<close> alone it lands on 100 and 0, with \<open>centered\<close> alone
  on 90 and 10.
\<close>

theorem onMouseMove_position_in_range_witness:
  "position (onMouseMove (fixture_config False True)
          (fixture_dragging False True) (MouseEvent fixture_target 1000 (- 500)))
       = \<lparr> pos_x = Num 100, pos_y = Num 0 \<rparr>
   \<and> in_percent_range (Num 100) \<and> in_percent_range (Num 0)
   \<and> position (onMouseMove (fixture_config True False)
          (fixture_dragging True False) (MouseEvent fixture_target 1000 (- 500)))
       = \<lparr> pos_x = Num 90, pos_y = Num 10 \<rparr>
   \<and> in_percent_range (Num 90) \<and> in_percent_range (Num 10)"
proof -
  have pos: "position (onMouseMove (fixture_config False True)
          (fixture_dragging False True) (MouseEvent fixture_target 1000 (- 500)))
       = \<lparr> pos_x = Num 100, pos_y = Num 0 \<rparr>"
    by (simp add: fixture_dragging_eq fixture_config_def onMouseMove_def move_newX_def
      move_newY_def move_percentX_def move_percentY_def js_div_def Let_def)
  have pos': "position (onMouseMove (fixture_config True False)
          (fixture_dragging True False) (MouseEvent fixture_target 1000 (- 500)))
       = \<lparr> pos_x = Num 90, pos_y = Num 10 \<rparr>"
    by (simp add: fixture_dragging_eq fixture_config_def onMouseMove_def move_newX_def
      move_newY_def move_percentX_def move_percentY_def js_div_def Let_def)
  from onMouseMove_position_in_range [of "fixture_dragging False True"
      "\<lparr> r_left = 0, r_top = 0, r_width = 100, r_height = 100 \<rparr>"
      "\<lparr> r_left = 40, r_top = 40, r_width = 20, r_height = 20 \<rparr>"
      "MouseEvent fixture_target 1000 (- 500)" 1000 "- 500" "fixture_config False True"]
  have r: "in_percent_range (pos_x (position (onMouseMove (fixture_config False True)
          (fixture_dragging False True) (MouseEvent fixture_target 1000 (- 500)))))
   \<and> in_percent_range (pos_y (position (onMouseMove (fixture_config False True)
          (fixture_dragging False True) (MouseEvent fixture_target 1000 (- 500)))))"
    by (simp add: fixture_dragging_eq fixture_config_def)
  from onMouseMove_position_in_range [of "fixture_dragging True False"
      "\<lparr> r_left = 0, r_top = 0, r_width = 100, r_height = 100 \<rparr>"
      "\<lparr> r_left = 40, r_top = 40, r_width = 20, r_height = 20 \<rparr>"
      "MouseEvent fixture_target 1000 (- 500)" 1000 "- 500" "fixture_config True False"]
  have r': "in_percent_range (pos_x (position (onMouseMove (fixture_config True False)
          (fixture_dragging True False) (MouseEvent fixture_target 1000 (- 500)))))
   \<and> in_percent_range (pos_y (position (onMouseMove (fixture_config True False)
          (fixture_dragging True False) (MouseEvent fixture_target 1000 (- 500)))))"
    by (simp add: fixture_dragging_eq fixture_config_def)
  show ?thesis using pos pos' r r' by simp
qed

lemmas fl64_at_m2 = fl64_at [of "- 2"]

lemmas fl64_at_m1 = fl64_at [of "- 1"]

lemmas fl64_at_0 = fl64_at [of 0]

lemmas fl64_at_1 = fl64_at [of 1]

lemmas fl64_at_2 = fl64_at [of 2]

lemmas fl64_at_3 = fl64_at [of 3]

lemmas fl64_at_4 = fl64_at [of 4]

lemmas fl64_at_5 = fl64_at [of 5]

lemmas fl64_at_6 = fl64_at [of 6]

lemma fl64_cases: "(\<exists>y. fl64 x = Num y) \<or> fl64 x = PosInf \<or> fl64 x = NegInf"
  by (simp add: fl64_def Let_def)

lemma fl64_nonneg_not_NegInf:
  assumes "0 \<le> x"
  shows "fl64 x \<noteq> NegInf"
  using assms by (simp add: fl64_def Let_def)

lemma range_finite:
  assumes "min_p p \<le> max_p p" "d_sub (Num (max_p p)) (Num (min_p p)) \<noteq> PosInf"
  shows "\<exists>R. d_sub (Num (max_p p)) (Num (min_p p)) = Num R"
  using assms fl64_cases [of "max_p p - min_p p"]
    fl64_nonneg_not_NegInf [of "max_p p - min_p p"] by auto

lemma percent_fraction_finite:
  assumes "0 \<le> x" "x \<le> 100"
  shows "\<exists>q. d_div (Num x) (Num 100) = Num q"
proof -
  have "\<bar>x / 100\<bar> \<le> 2 ^ 1023" using assms by simp
  then show ?thesis using fl64_error [of "x / 100"] by auto
qed

lemma scaled_not_NaN: "d_add (d_mul (Num q) (Num R)) (Num lo) \<noteq> NaN"
  using fl64_cases [of "q * R"] by (auto simp: fl64_not_NaN)

lemma stepped_cases:
  assumes "w \<noteq> NaN" "0 < s"
  shows "d_mul (js_round (d_div w (Num s))) (Num s) = PosInf
       \<or> d_mul (js_round (d_div w (Num s))) (Num s) = NegInf
       \<or> (\<exists>k::int. d_mul (js_round (d_div w (Num s))) (Num s) = fl64 (of_int k * s))"
proof (cases w)
  case (Num a)
  show ?thesis
  proof (cases "fl64 (a / s)")
    case (Num z)
    then show ?thesis using \<open>w = Num a\<close> assms(2) by (auto simp: math_round_def)
  qed (use \<open>w = Num a\<close> assms(2) fl64_not_NaN in auto)
qed (use assms in auto)

lemma clamp_js:
  assumes "lo \<le> hi" "w \<noteq> NaN"
  shows "\<exists>v. js_max lo (js_min hi w) = Num v \<and> lo \<le> v \<and> v \<le> hi
              \<and> (v = lo \<or> v = hi \<or> w = Num v)"
  using assms by (cases w) auto

lemma derived_step_or_end:
  assumes "min_p p \<le> max_p p" "d_sub (Num (max_p p)) (Num (min_p p)) \<noteq> PosInf"
    and "0 \<le> x" "x \<le> 100"
  shows "\<exists>v. js_max (min_p p) (js_min (max_p p)
           (let range = d_sub (Num (max_p p)) (Num (min_p p));
                newValue = d_add (d_mul (d_div (Num x) (Num 100)) range) (Num (min_p p))
            in if 0 < step p
               then d_mul (js_round (d_div newValue (Num (step p)))) (Num (step p))
               else newValue)) = Num v \<and> step_or_end p v"
proof -
  obtain R where R: "d_sub (Num (max_p p)) (Num (min_p p)) = Num R"
    using range_finite [OF assms(1,2)] by blast
  obtain q where q: "d_div (Num x) (Num 100) = Num q"
    using percent_fraction_finite [OF assms(3,4)] by blast
  define nv where "nv = d_add (d_mul (Num q) (Num R)) (Num (min_p p))"
  have nv: "nv \<noteq> NaN" unfolding nv_def by (rule scaled_not_NaN)
  define w where "w = (if 0 < step p
               then d_mul (js_round (d_div nv (Num (step p)))) (Num (step p)) else nv)"
  have w: "w \<noteq> NaN"
    using stepped_cases [OF nv, of "step p"] nv fl64_not_NaN
    by (auto simp: w_def) metis
  obtain v where v: "js_max (min_p p) (js_min (max_p p) w) = Num v"
      "min_p p \<le> v" "v \<le> max_p p" "v = min_p p \<or> v = max_p p \<or> w = Num v"
    using clamp_js [OF assms(1) w] by blast
  have "step_or_end p v"
  proof (cases "0 < step p")
    case True
    then have "w = d_mul (js_round (d_div nv (Num (step p)))) (Num (step p))"
      by (simp add: w_def)
    then have "w = Num v \<Longrightarrow> double_multiple (step p) v"
      using stepped_cases [OF nv True] by (auto simp: double_multiple_def)
    then show ?thesis using v by (auto simp: step_or_end_def)
  next
    case False
    then show ?thesis using v by (simp add: step_or_end_def)
  qed
  moreover have "fl64 (max_p p - min_p p) = Num R" "fl64 (x / 100) = Num q"
    using R q by simp_all
  ultimately show ?thesis using v(1) by (auto simp: nv_def w_def Let_def)
qed

lemma watch_emits_step_or_end:
  assumes "min_p p \<le> max_p p" "d_sub (Num (max_p p)) (Num (min_p p)) \<noteq> PosInf"
    and "in_percent_range x" "watch_position_x p x = Some e"
  shows "emitted_step_or_end p e"
proof -
  from assms(3) obtain a where a: "x = Num a" "0 \<le> a" "a \<le> 100"
    by (cases x) auto
  from assms(4) have e: "e = watch_newValue p (Num a)"
    by (simp add: watch_position_x_def Let_def a split: if_splits)
  obtain v where "watch_newValue p (Num a) = Num v" "step_or_end p v"
    using derived_step_or_end [OF assms(1,2) a(2,3)]
    by (auto simp: watch_newValue_def Let_def)
  then show ?thesis using e by simp
qed

lemma click_percentage_range:
  "0 \<le> click_percentage tr th cx \<and> click_percentage tr th cx \<le> 100"
proof (cases "0 < click_effectiveWidth tr th")
  case True
  have "0 \<le> click_clampedX tr th cx \<and> click_clampedX tr th cx \<le> click_effectiveWidth tr th"
    using True by (simp add: click_clampedX_def)
  then show ?thesis
    using True ratio_percent [of "click_clampedX tr th cx" "click_effectiveWidth tr th"]
    by (simp add: click_percentage_def Let_def)
next
  case False
  then show ?thesis by (simp add: click_percentage_def Let_def)
qed

lemma click_emits_step_or_end:
  assumes "min_p p \<le> max_p p" "d_sub (Num (max_p p)) (Num (min_p p)) \<noteq> PosInf"
    and "cr_emitted (handleTrackClick mt p tr th ta st ev) = Some e"
  shows "emitted_step_or_end p e"
proof -
  from assms(3) obtain x where x: "e = click_newValue p x" "0 \<le> x" "x \<le> 100"
    using click_percentage_range
    by (auto simp: handleTrackClick_def Let_def split: if_splits option.splits prod.splits)
  have g: "(step p \<noteq> 0 \<and> 0 < step p) \<longleftrightarrow> 0 < step p" by auto
  obtain v where "click_newValue p x = Num v" "step_or_end p v"
    using derived_step_or_end [OF assms(1,2) x(2,3)]
    by (auto simp: click_newValue_def Let_def g)
  then show ?thesis using x(1) by simp
qed

lemma slider_move_percent:
  assumes "pos_x (position (onMouseMove slider_config st ev)) \<noteq> pos_x (position st)"
  shows "in_percent_range (pos_x (position (onMouseMove slider_config st ev)))"
proof -
  have c: "useOffset slider_config" "\<not> centered slider_config"
    by (simp_all add: slider_config_def)
  from assms obtain pr er cx cy where
    "isDragging st" "parentRect st = Some pr" "elementRect st = Some er"
    "ev_point ev = Some (cx, cy)"
    by (auto simp: onMouseMove_def split: if_splits option.splits prod.splits)
  then show ?thesis
    using move_percentX_offset [OF c] by (simp add: onMouseMove_dragging)
qed

text \<open>
  Claim C2, as the code has it. With \<open>min \<le> max\<close> and a difference \<open>max - min\<close>
  that does not overflow, every value the slider emits, from a pointer move, from the
  watcher's callback on a percentage between 0 and 100, or from a press on the track, is a
  finite number within \<open>[min, max]\<close>; when \<open>step > 0\<close> it is \<open>min\<close>, \<open>max\<close>, or
  the binary64 product of an integer and \<open>step\<close>.
\<close>

theorem slider_emits_step_or_end:
  assumes "min_p p \<le> max_p p" "d_sub (Num (max_p p)) (Num (min_p p)) \<noteq> PosInf"
  shows "(snd (slider_onMouseMove p st ev) = Some e \<longrightarrow> emitted_step_or_end p e)
       \<and> (in_percent_range x \<longrightarrow> watch_position_x p x = Some e' \<longrightarrow>
            emitted_step_or_end p e')
       \<and> (cr_emitted (handleTrackClick mt p tr th ta st ev') = Some e'' \<longrightarrow>
            emitted_step_or_end p e'')"
proof (intro conjI impI)
  assume a: "snd (slider_onMouseMove p st ev) = Some e"
  then have ne: "pos_x (position (onMouseMove slider_config st ev)) \<noteq> pos_x (position st)"
    by (simp add: slider_onMouseMove_def Let_def split: if_splits)
  from a ne have "watch_position_x p (pos_x (position (onMouseMove slider_config st ev))) = Some e"
    by (simp add: slider_onMouseMove_def Let_def)
  then show "emitted_step_or_end p e"
    using assms slider_move_percent [OF ne] watch_emits_step_or_end by blast
next
  assume "in_percent_range x" "watch_position_x p x = Some e'"
  then show "emitted_step_or_end p e'" using assms watch_emits_step_or_end by blast
next
  assume "cr_emitted (handleTrackClick mt p tr th ta st ev') = Some e''"
  then show "emitted_step_or_end p e''" using assms click_emits_step_or_end by blast
qed

lemma fixture_click_left:
  "cr_emitted (handleTrackClick no_match (fixture_props 5 1 11 2 False) (Some fixture_track)
       (Some (fixture_thumb 100)) (Some (fixture_thumb 30)) (init_engine None)
       (MouseEvent fixture_track 30 10)) = Some (Num 2)"
  by (simp add: handleTrackClick_def fixture_props_def fixture_track_def fixture_thumb_def
      click_percentage_def click_clampedX_def click_targetX_def click_effectiveWidth_def
      click_newValue_def math_round_def round_even_def fl64_zero fl64_at_m1 fl64_at_0
      fl64_at_1 fl64_at_3 Let_def)

lemma fixture_tenth_step:
  "watch_position_x (fixture_props 0 0 1 (3602879701896397 / 2 ^ 55) False) (Num 30)
     = Some (Num (1351079888211149 / 2 ^ 52))"
  by (simp add: watch_position_x_def watch_newValue_def fixture_props_def math_round_def
      round_even_def fl64_zero fl64_at_m2 fl64_at_0 fl64_at_1 Let_def)

lemma fixture_range_overflow:
  "watch_position_x (fixture_props 0 (- (2 ^ 1023)) (2 ^ 1023) 1 False) (Num 0) = Some NaN"
  by (simp add: watch_position_x_def watch_newValue_def fixture_props_def math_round_def
      round_even_def fl64_zero fl64_at [of 1024] Let_def)

text \<open>
  Claim C2 as stated fails in three ways. With \<open>min = 1\<close>, \<open>max = 11\<close>,
  \<open>step = 2\<close> a press on the left end of the track emits 2, and \<open>2 - min\<close> is not a
  multiple of the step. With \<open>min = 0\<close>, \<open>max = 1\<close> and the binary64 number nearest
  to 0.1 as the step, the callback at 30 percent emits the rounded product of 3 and the
  step, 0.30000000000000004, which is not a whole number of steps. With
  \<open>min = - 2 ^ 1023\<close> and \<open>max = 2 ^ 1023\<close> the difference overflows, and the
  callback at 0 percent emits \<open>NaN\<close>.
\<close>

theorem slider_step_from_min_counterexample:
  "cr_emitted (handleTrackClick no_match (fixture_props 5 1 11 2 False) (Some fixture_track)
       (Some (fixture_thumb 100)) (Some (fixture_thumb 30)) (init_engine None)
       (MouseEvent fixture_track 30 10)) = Some (Num 2)
   \<and> min_p (fixture_props 5 1 11 2 False) \<le> max_p (fixture_props 5 1 11 2 False)
   \<and> 0 < step (fixture_props 5 1 11 2 False)
   \<and> \<not> on_step_grid (min_p (fixture_props 5 1 11 2 False)) (step (fixture_props 5 1 11 2 False)) 2
   \<and> watch_position_x (fixture_props 0 0 1 (3602879701896397 / 2 ^ 55) False) (Num 30)
       = Some (Num (1351079888211149 / 2 ^ 52))
   \<and> \<not> on_step_grid 0 (3602879701896397 / 2 ^ 55) (1351079888211149 / 2 ^ 52)
   \<and> watch_position_x (fixture_props 0 (- (2 ^ 1023)) (2 ^ 1023) 1 False) (Num 0) = Some NaN"
  by (intro conjI fixture_click_left fixture_tenth_step fixture_range_overflow)
     (simp_all add: fixture_props_def on_step_grid_def)

text \<open>
  The theorem for claim C2 on its three paths: a drag to the right end with
  \<open>max = 5\<close>, \<open>step = 2\<close> emits the end value 5, the callback at 44 percent emits 40,
  and the press of the counterexample emits the product of 1 and the step.
\<close>

theorem slider_emits_step_or_end_witness:
  "snd (slider_onMouseMove (fixture_props 0 0 5 2 False) (fixture_dragging False True)
          (MouseEvent fixture_target 1000 50)) = Some (Num 5)
   \<and> emitted_step_or_end (fixture_props 0 0 5 2 False) (Num 5)
   \<and> watch_position_x (fixture_props 0 0 100 10 False) (Num 44) = Some (Num 40)
   \<and> emitted_step_or_end (fixture_props 0 0 100 10 False) (Num 40)
   \<and> emitted_step_or_end (fixture_props 5 1 11 2 False) (Num 2)"
proof -
  have m: "snd (slider_onMouseMove (fixture_props 0 0 5 2 False) (fixture_dragging False True)
          (MouseEvent fixture_target 1000 50)) = Some (Num 5)"
    by (simp add: slider_onMouseMove_def fixture_dragging_eq slider_config_def onMouseMove_def
        move_newX_def move_newY_def move_percentX_def move_percentY_def js_div_def
        watch_position_x_def watch_newValue_def fixture_props_def math_round_def
        round_even_def fl64_zero fl64_at_0 fl64_at_1 fl64_at_2 Let_def)
  have w: "watch_position_x (fixture_props 0 0 100 10 False) (Num 44) = Some (Num 40)"
    by (simp add: watch_position_x_def watch_newValue_def fixture_props_def
        math_round_def round_even_def fl64_zero fl64_at_m2 fl64_at_2 fl64_at_5 fl64_at_6
        Let_def)
  have r1: "min_p (fixture_props 0 0 5 2 False) \<le> max_p (fixture_props 0 0 5 2 False)"
    "d_sub (Num (max_p (fixture_props 0 0 5 2 False)))
       (Num (min_p (fixture_props 0 0 5 2 False))) \<noteq> PosInf"
    by (simp_all add: fixture_props_def round_even_def fl64_at_2)
  have r2: "min_p (fixture_props 0 0 100 10 False) \<le> max_p (fixture_props 0 0 100 10 False)"
    "d_sub (Num (max_p (fixture_props 0 0 100 10 False)))
       (Num (min_p (fixture_props 0 0 100 10 False))) \<noteq> PosInf"
    by (simp_all add: fixture_props_def round_even_def fl64_at_6)
  have r3: "min_p (fixture_props 5 1 11 2 False) \<le> max_p (fixture_props 5 1 11 2 False)"
    "d_sub (Num (max_p (fixture_props 5 1 11 2 False)))
       (Num (min_p (fixture_props 5 1 11 2 False))) \<noteq> PosInf"
    by (simp_all add: fixture_props_def round_even_def fl64_at_3)
  show ?thesis
    using m w fixture_click_left
      slider_emits_step_or_end [OF r1, where st = "fixture_dragging False True"
        and ev = "MouseEvent fixture_target 1000 50" and e = "Num 5"]
      slider_emits_step_or_end [OF r2, where x = "Num 44" and e' = "Num 40"]
      slider_emits_step_or_end [OF r3, where mt = no_match and tr = "Some fixture_track"
        and th = "Some (fixture_thumb 100)" and ta = "Some (fixture_thumb 30)"
        and st = "init_engine None" and ev' = "MouseEvent fixture_track 30 10"
        and e'' = "Num 2"]
    by simp
qed

lemma fl64_near:
  assumes "\<bar>x\<bar> \<le> B" "B \<le> 2 ^ 1023"
  obtains y where "fl64 x = Num y" "\<bar>y - x\<bar> \<le> B / 2 ^ 53 + 1 / 2 ^ 1075"
proof -
  have "\<bar>x\<bar> \<le> 2 ^ 1023" using assms by linarith
  then obtain y where y: "fl64 x = Num y" "\<bar>y - x\<bar> \<le> \<bar>x\<bar> / 2 ^ 53 + 1 / 2 ^ 1075"
    using fl64_error by blast
  have "\<bar>x\<bar> / 2 ^ 53 \<le> B / 2 ^ 53" using assms(1) by (simp add: divide_right_mono)
  then have "\<bar>y - x\<bar> \<le> B / 2 ^ 53 + 1 / 2 ^ 1075" using y(2) by linarith
  then show ?thesis using y(1) that by blast
qed

lemma pos_of_lower:
  fixes D :: real
  assumes "1 / 2 ^ 500 \<le> D"
  shows "0 < D"
proof -
  have "(0::real) < 1 / 2 ^ 500" by simp
  then show ?thesis using assms by linarith
qed

lemma below_overflow:
  fixes D :: real
  assumes "D \<le> 2 ^ 540"
  shows "D \<le> 2 ^ 1023"
proof -
  have "(2::real) ^ 540 \<le> 2 ^ 1023" by (rule power_increasing) simp_all
  then show ?thesis using assms by linarith
qed

lemma underflow_unit_le:
  fixes D :: real
  assumes "1 / 2 ^ 500 \<le> D"
  shows "1 / 2 ^ 1075 \<le> D / 2 ^ 53"
proof -
  have "(1::real) / 2 ^ 1075 = (1 / 2 ^ 1022) / 2 ^ 53" by (simp add: power_add [symmetric])
  moreover have "(1::real) / 2 ^ 1022 \<le> 1 / 2 ^ 500"
    by (intro divide_left_mono power_increasing) simp_all
  ultimately show ?thesis using assms by (simp add: divide_right_mono)
qed

lemma abs_quotient_le:
  fixes x R c :: real
  assumes "0 < R" "\<bar>x\<bar> \<le> c * R"
  shows "\<bar>x / R\<bar> \<le> c"
proof -
  have "\<bar>x / R\<bar> = \<bar>x\<bar> / R" using assms(1) by simp
  also have "\<dots> \<le> c" using assms by (simp add: pos_divide_le_eq)
  finally show ?thesis .
qed

lemma abs_product_le:
  fixes d R c B :: real
  assumes "\<bar>d\<bar> \<le> c" "0 \<le> R" "R \<le> B"
  shows "\<bar>d * R\<bar> \<le> c * B"
proof -
  have "0 \<le> c" using assms(1) by linarith
  have "\<bar>d * R\<bar> = \<bar>d\<bar> * R" using assms(2) by (simp add: abs_mult)
  also have "\<dots> \<le> c * B" using assms \<open>0 \<le> c\<close> by (intro mult_mono) auto
  finally show ?thesis .
qed

lemma abs_scaled_diff_le:
  fixes x y s c :: real
  assumes "0 < s" "\<bar>x - y\<bar> \<le> c * s"
  shows "\<bar>x / s - y / s\<bar> \<le> c"
proof -
  have "x / s - y / s = (x - y) / s" by (simp add: diff_divide_distrib)
  then show ?thesis using abs_quotient_le [OF assms] by simp
qed

lemma percentage_chain:
  fixes A D :: real
  assumes D: "1 / 2 ^ 500 \<le> D" "D \<le> 2 ^ 540" and A: "0 \<le> A" "A \<le> D"
  obtains a R q pc where
    "fl64 A = Num a" "fl64 D = Num R" "fl64 (a / R) = Num q" "fl64 (q * 100) = Num pc"
    "0 < R" "R \<le> 2 * D" "\<bar>a - A\<bar> \<le> D / 2 ^ 52" "\<bar>a / R\<bar> \<le> 3"
    "\<bar>q - a / R\<bar> \<le> 4 / 2 ^ 53" "\<bar>pc - q * 100\<bar> \<le> 401 / 2 ^ 53"
    "\<bar>pc - A / D * 100\<bar> \<le> 1 / 2 ^ 40"
proof -
  have Dpos: "0 < D" using D(1) by (rule pos_of_lower)
  have Dbig: "D \<le> 2 ^ 1023" using D(2) by (rule below_overflow)
  have "\<bar>A\<bar> \<le> D" using A by simp
  then obtain a where a: "fl64 A = Num a" "\<bar>a - A\<bar> \<le> D / 2 ^ 53 + 1 / 2 ^ 1075"
    using fl64_near [of A D] Dbig by blast
  have "\<bar>D\<bar> \<le> D" using Dpos by simp
  then obtain R where R: "fl64 D = Num R" "\<bar>R - D\<bar> \<le> D / 2 ^ 53 + 1 / 2 ^ 1075"
    using fl64_near [of D D] Dbig by blast
  have tiny: "1 / 2 ^ 1075 \<le> D / 2 ^ 53" using D(1) by (rule underflow_unit_le)
  have two: "D / 2 ^ 53 + D / 2 ^ 53 = D / 2 ^ 52" by simp
  have aA: "\<bar>a - A\<bar> \<le> D / 2 ^ 52" using a(2) tiny two by linarith
  have RD: "\<bar>R - D\<bar> \<le> D / 2 ^ 52" using R(2) tiny two by linarith
  have small: "D / 2 ^ 52 \<le> D / 2" using Dpos by (simp add: field_simps)
  have Rlo: "D / 2 \<le> R" using RD small by linarith
  have Rhi: "R \<le> 2 * D" using RD small Dpos by linarith
  have Rpos: "0 < R" using Rlo Dpos by linarith
  have "\<bar>a\<bar> \<le> 3 * R" using aA small A Rlo by linarith
  then have t3: "\<bar>a / R\<bar> \<le> 3" using abs_quotient_le [OF Rpos] by blast
  define P where "P = A / D"
  have P01: "\<bar>P\<bar> \<le> 1" using A Dpos by (simp add: P_def)
  have PD: "P * D = A" using Dpos by (simp add: P_def)
  have split: "(a / R - P) * R = (a - A) + P * (D - R)"
    using Rpos PD by (simp add: field_simps)
  have "\<bar>P * (D - R)\<bar> = \<bar>P\<bar> * \<bar>D - R\<bar>" by (simp add: abs_mult)
  also have "\<dots> \<le> 1 * \<bar>D - R\<bar>" using P01 by (intro mult_right_mono) auto
  finally have "\<bar>P * (D - R)\<bar> \<le> \<bar>R - D\<bar>" by simp
  then have "\<bar>(a / R - P) * R\<bar> \<le> D / 2 ^ 52 + D / 2 ^ 52"
    unfolding split using aA RD by linarith
  moreover have "D / 2 ^ 52 + D / 2 ^ 52 = (8 / 2 ^ 53) * (D / 2)" by simp
  moreover have "(8 / 2 ^ 53) * (D / 2) \<le> (8 / 2 ^ 53) * R"
    using Rlo by (intro mult_left_mono) auto
  ultimately have "\<bar>(a / R - P) * R\<bar> \<le> (8 / 2 ^ 53) * R" by linarith
  then have "\<bar>(a / R - P) * R / R\<bar> \<le> 8 / 2 ^ 53"
    using abs_quotient_le [OF Rpos] by blast
  then have tP: "\<bar>a / R - P\<bar> \<le> 8 / 2 ^ 53" using Rpos by simp
  have "(3::real) \<le> 2 ^ 1023" by simp
  then obtain q where q: "fl64 (a / R) = Num q" "\<bar>q - a / R\<bar> \<le> 3 / 2 ^ 53 + 1 / 2 ^ 1075"
    using fl64_near [of "a / R" 3] t3 by blast
  have n1: "(3::real) / 2 ^ 53 + 1 / 2 ^ 1075 \<le> 4 / 2 ^ 53" by simp
  have qt: "\<bar>q - a / R\<bar> \<le> 4 / 2 ^ 53" using q(2) n1 by linarith
  have n2: "(4::real) / 2 ^ 53 \<le> 1" by simp
  have "\<bar>q * 100\<bar> \<le> 400" using qt t3 n2 by linarith
  moreover have "(400::real) \<le> 2 ^ 1023" by simp
  ultimately obtain pc where pc: "fl64 (q * 100) = Num pc"
      "\<bar>pc - q * 100\<bar> \<le> 400 / 2 ^ 53 + 1 / 2 ^ 1075"
    using fl64_near [of "q * 100" 400] by blast
  have n3: "(400::real) / 2 ^ 53 + 1 / 2 ^ 1075 \<le> 401 / 2 ^ 53" by simp
  have pq: "\<bar>pc - q * 100\<bar> \<le> 401 / 2 ^ 53" using pc(2) n3 by linarith
  have n4: "(401::real) / 2 ^ 53 + 100 * (4 / 2 ^ 53) + 100 * (8 / 2 ^ 53) \<le> 1 / 2 ^ 40"
    by simp
  have "\<bar>pc - P * 100\<bar> \<le> 1 / 2 ^ 40" using pq qt tP n4 by linarith
  then have "\<bar>pc - A / D * 100\<bar> \<le> 1 / 2 ^ 40" by (simp add: P_def)
  then show ?thesis using that a(1) R(1) q(1) pc(1) Rpos Rhi aA t3 qt pq by blast
qed

lemma scaled_below_overflow:
  fixes x s :: real
  assumes "x \<le> 2 ^ 43 * s" "s \<le> 2 ^ 500"
  shows "x \<le> 2 ^ 1023"
proof -
  have "2 ^ 43 * s \<le> 2 ^ 43 * (2::real) ^ 500" using assms(2) by simp
  also have "\<dots> = 2 ^ 543" by (simp add: power_add [symmetric])
  also have "\<dots> \<le> (2::real) ^ 1023" by (rule power_increasing) simp_all
  finally show ?thesis using assms(1) by linarith
qed

lemma round_trip_chain:
  fixes a R q pc A D lo s v :: real and k :: int
  assumes s: "1 / 2 ^ 500 \<le> s" "s \<le> 2 ^ 500"
    and D: "s \<le> D" "D \<le> 2 ^ 40 * s"
    and R: "0 < R" "R \<le> 2 * D"
    and a: "\<bar>a - A\<bar> \<le> D / 2 ^ 52" "\<bar>a / R\<bar> \<le> 3"
    and q: "\<bar>q - a / R\<bar> \<le> 4 / 2 ^ 53"
    and pc: "\<bar>pc - q * 100\<bar> \<le> 401 / 2 ^ 53"
    and v: "v = A + lo" "\<bar>k\<bar> \<le> 2 ^ 40" "fl64 (of_int k * s) = Num v"
  obtains q' b r z where
    "fl64 (pc / 100) = Num q'" "fl64 (q' * R) = Num b" "fl64 (b + lo) = Num r"
    "fl64 (r / s) = Num z" "math_round z = of_int k"
proof -
  define e :: real where "e = 1 / 2 ^ 53"
  define h :: real where "h = 1 / 2 ^ 1075"
  define u where "u = D / 2 ^ 53"
  define w where "w = s / 2 ^ 13"
  have spos: "0 < s" using s(1) by (rule pos_of_lower)
  have Dpos: "0 < D" using spos D(1) by linarith
  have wpos: "0 < w" using spos by (simp add: w_def)
  have sw: "s = 8192 * w" by (simp add: w_def)
  have e1: "1000 * e \<le> 1" by (simp add: e_def)
  have epos: "0 < e" by (simp add: e_def)
  have he: "h \<le> e" unfolding h_def e_def
    by (intro divide_left_mono power_increasing) simp_all
  have "1 / 2 ^ 1075 \<le> s / 2 ^ 53" using s(1) by (rule underflow_unit_le)
  then have hs: "h \<le> s / 2 ^ 53" by (simp add: h_def)
  have "s / 2 ^ 53 \<le> D / 2 ^ 53" using D(1) by (simp add: divide_right_mono)
  then have hu: "h \<le> u" using hs by (simp add: u_def)
  have "s / 2 ^ 53 \<le> s / 2 ^ 13" using spos by (simp add: field_simps)
  then have hw: "h \<le> w" using hs by (simp add: w_def)
  have "D / 2 ^ 53 \<le> 2 ^ 40 * s / 2 ^ 53" using D(2) by (simp add: divide_right_mono)
  then have uw: "u \<le> w" by (simp add: u_def w_def)
  have aA: "\<bar>a - A\<bar> \<le> 2 * u" using a(1) by (simp add: u_def)
  have qa: "\<bar>q - a / R\<bar> \<le> 4 * e" using q by (simp add: e_def)
  have pq: "\<bar>pc - q * 100\<bar> \<le> 401 * e" using pc by (simp add: e_def)
  \<comment> \<open>the percentage divided by 100\<close>
  have "\<bar>pc\<bar> \<le> 500" using pq qa a(2) e1 epos by linarith
  then have "\<bar>pc / 100\<bar> \<le> 5" by simp
  moreover have "(5::real) \<le> 2 ^ 1023" by simp
  ultimately obtain q' where q': "fl64 (pc / 100) = Num q'"
      "\<bar>q' - pc / 100\<bar> \<le> 5 / 2 ^ 53 + 1 / 2 ^ 1075"
    using fl64_near [of "pc / 100" 5] by blast
  have "\<bar>q' - pc / 100\<bar> \<le> 5 * e + h" using q'(2) by (simp add: e_def h_def)
  then have qt: "\<bar>q' - a / R\<bar> \<le> 15 * e" using pq qa he epos by linarith
  have q4: "\<bar>q'\<bar> \<le> 4" using qt a(2) e1 epos by linarith
  \<comment> \<open>times the range\<close>
  have "\<bar>q' * R\<bar> \<le> 4 * (2 * D)" using abs_product_le [OF q4 _ R(2)] R(1) by simp
  then have qR: "\<bar>q' * R\<bar> \<le> 8 * D" by simp
  have "8 * D \<le> 2 ^ 43 * s" using D(2) by simp
  then have "8 * D \<le> 2 ^ 1023" using s(2) by (rule scaled_below_overflow)
  then obtain b where b: "fl64 (q' * R) = Num b"
      "\<bar>b - q' * R\<bar> \<le> 8 * D / 2 ^ 53 + 1 / 2 ^ 1075"
    using fl64_near [OF qR] by blast
  have bq: "\<bar>b - q' * R\<bar> \<le> 8 * u + h" using b(2) by (simp add: u_def h_def)
  have c15: "\<bar>q' - a / R\<bar> \<le> 15 / 2 ^ 53" using qt by (simp add: e_def)
  have Rnn: "0 \<le> R" using R(1) by simp
  have "\<bar>(q' - a / R) * R\<bar> \<le> 15 / 2 ^ 53 * (2 * D)"
    using c15 Rnn R(2) by (rule abs_product_le)
  moreover have "(q' - a / R) * R = q' * R - a" using R(1) by (simp add: field_simps)
  ultimately have "\<bar>q' * R - a\<bar> \<le> 30 * u" by (simp add: u_def)
  then have bA: "\<bar>b - A\<bar> \<le> 41 * w" using bq aA hu uw by linarith
  \<comment> \<open>plus the minimum\<close>
  have kk: "\<bar>real_of_int k\<bar> \<le> 2 ^ 40" using v(2) by (simp flip: of_int_abs)
  have ks: "\<bar>of_int k * s\<bar> \<le> 2 ^ 40 * s"
  proof -
    have "\<bar>of_int k * s\<bar> = \<bar>real_of_int k\<bar> * s" using spos by (simp add: abs_mult)
    then show ?thesis using kk spos by (simp add: mult_right_mono)
  qed
  have "2 ^ 40 * s \<le> 2 ^ 43 * s" using spos by simp
  then have "2 ^ 40 * s \<le> 2 ^ 1023" using s(2) by (rule scaled_below_overflow)
  then obtain v' where "fl64 (of_int k * s) = Num v'"
      "\<bar>v' - of_int k * s\<bar> \<le> 2 ^ 40 * s / 2 ^ 53 + 1 / 2 ^ 1075"
    using fl64_near [OF ks] by blast
  then have "\<bar>v - of_int k * s\<bar> \<le> 2 ^ 40 * s / 2 ^ 53 + 1 / 2 ^ 1075"
    using v(3) by simp
  then have "\<bar>v - of_int k * s\<bar> \<le> w + h" by (simp add: w_def h_def)
  then have vk: "\<bar>v - of_int k * s\<bar> \<le> 2 * w" using hw by linarith
  have "2 ^ 40 * s = 2 ^ 53 * w" by (simp add: w_def)
  then have ks': "\<bar>of_int k * s\<bar> \<le> 2 ^ 53 * w" using ks by simp
  have bl: "\<bar>b + lo\<bar> \<le> 2 ^ 53 * w + 43 * w" using bA vk ks' v(1) by linarith
  have "2 ^ 53 * w + 43 * w \<le> 2 ^ 42 * s" using wpos by (simp add: sw)
  moreover have "2 ^ 42 * s \<le> 2 ^ 43 * s" using spos by simp
  ultimately have "2 ^ 53 * w + 43 * w \<le> 2 ^ 43 * s" by linarith
  then have "2 ^ 53 * w + 43 * w \<le> 2 ^ 1023" using s(2) by (rule scaled_below_overflow)
  then obtain r where r: "fl64 (b + lo) = Num r"
      "\<bar>r - (b + lo)\<bar> \<le> (2 ^ 53 * w + 43 * w) / 2 ^ 53 + 1 / 2 ^ 1075"
    using fl64_near [OF bl] by blast
  have "(2 ^ 53 * w + 43 * w) / 2 ^ 53 \<le> 2 * w" using wpos by (simp add: field_simps)
  then have "\<bar>r - (b + lo)\<bar> \<le> 2 * w + h" using r(2) by (simp add: h_def)
  then have "\<bar>r - v\<bar> \<le> 44 * w" using bA hw v(1) by linarith
  then have rv: "\<bar>r - v\<bar> \<le> (1 / 128) * s" using wpos by (simp add: sw)
  \<comment> \<open>divided by the step\<close>
  have z1: "\<bar>r / s - v / s\<bar> \<le> 1 / 128" using abs_scaled_diff_le [OF spos rv] .
  have "\<bar>v - of_int k * s\<bar> \<le> (1 / 2 ^ 12) * s" using vk by (simp add: sw)
  then have "\<bar>v / s - of_int k * s / s\<bar> \<le> 1 / 2 ^ 12" using abs_scaled_diff_le [OF spos] by blast
  then have z2: "\<bar>v / s - of_int k\<bar> \<le> 1 / 4096" using spos by simp
  have z1': "\<bar>r / s - v / s\<bar> \<le> 1 / 128" using z1 .
  have "\<bar>r / s\<bar> \<le> 2 ^ 40 + 1" using z1' z2 kk by linarith
  moreover have "(2::real) ^ 40 + 1 \<le> 2 ^ 1023" by simp
  ultimately obtain z where z: "fl64 (r / s) = Num z"
      "\<bar>z - r / s\<bar> \<le> (2 ^ 40 + 1) / 2 ^ 53 + 1 / 2 ^ 1075"
    using fl64_near [of "r / s" "2 ^ 40 + 1"] by blast
  have "((2::real) ^ 40 + 1) / 2 ^ 53 + 1 / 2 ^ 1075 \<le> 1 / 4096" by simp
  then have "\<bar>z - r / s\<bar> \<le> 1 / 4096" using z(2) by linarith
  then have zk: "\<bar>z - of_int k\<bar> \<le> 1 / 4" using z1' z2 by linarith
  have "\<lfloor>z + 1 / 2\<rfloor> = k" using zk by (intro floor_unique) linarith+
  then have "math_round z = of_int k" by (simp add: math_round_def)
  then show ?thesis using that q'(1) b(1) r(1) z(1) by blast
qed

text \<open>
  Claim C3, as the code has it. Let \<open>step\<close> lie between \<open>2 ^ -500\<close> and
  \<open>2 ^ 500\<close>, the range \<open>max - min\<close> between one step and \<open>2 ^ 40\<close> steps, and
  \<open>modelValue\<close> within \<open>[min, max]\<close> be the binary64 product of \<open>step\<close> and an
  integer of magnitude at most \<open>2 ^ 40\<close>. Then the thumb's percentage is within
  \<open>2 ^ -40\<close> of \<open>(modelValue - min) / (max - min) * 100\<close>, and the watcher's
  derivation at that percentage gives \<open>modelValue\<close> back whatever value \<open>m\<close> the
  slider holds at that moment: the callback emits it unless the slider is disabled or
  \<open>m\<close> is that value already.
\<close>

theorem slider_round_trip:
  assumes "min_p p \<le> modelValue p" "modelValue p \<le> max_p p"
    and "1 / 2 ^ 500 \<le> step p" "step p \<le> 2 ^ 500"
    and "step p \<le> max_p p - min_p p" "max_p p - min_p p \<le> 2 ^ 40 * step p"
    and "\<bar>k\<bar> \<le> 2 ^ 40" "fl64 (of_int k * step p) = Num (modelValue p)"
  shows "\<exists>pc. valueAsPercentage p = Num pc
       \<and> \<bar>pc - (modelValue p - min_p p) / (max_p p - min_p p) * 100\<bar> \<le> 1 / 2 ^ 40
       \<and> watch_newValue (p\<lparr>modelValue := m\<rparr>) (Num pc) = Num (modelValue p)
       \<and> watch_position_x (p\<lparr>modelValue := m\<rparr>) (Num pc)
           = (if disabled p \<or> m = modelValue p then None else Some (Num (modelValue p)))"
proof -
  define A where "A = modelValue p - min_p p"
  define D where "D = max_p p - min_p p"
  have spos: "0 < step p" using assms(3) by (rule pos_of_lower)
  have D1: "1 / 2 ^ 500 \<le> D" using assms(3,5) by (simp add: D_def)
  have "2 ^ 40 * step p \<le> 2 ^ 40 * (2::real) ^ 500" using assms(4) by simp
  also have "\<dots> = 2 ^ 540" by (simp add: power_add [symmetric])
  finally have D2: "D \<le> 2 ^ 540" using assms(6) by (simp add: D_def)
  have A: "0 \<le> A" "A \<le> D" using assms(1,2) by (simp_all add: A_def D_def)
  obtain a R q pc where c:
    "fl64 A = Num a" "fl64 D = Num R" "fl64 (a / R) = Num q" "fl64 (q * 100) = Num pc"
    "0 < R" "R \<le> 2 * D" "\<bar>a - A\<bar> \<le> D / 2 ^ 52" "\<bar>a / R\<bar> \<le> 3"
    "\<bar>q - a / R\<bar> \<le> 4 / 2 ^ 53" "\<bar>pc - q * 100\<bar> \<le> 401 / 2 ^ 53"
    "\<bar>pc - A / D * 100\<bar> \<le> 1 / 2 ^ 40"
    using percentage_chain [OF D1 D2 A] by blast
  have v: "modelValue p = A + min_p p" by (simp add: A_def)
  have D': "step p \<le> D" "D \<le> 2 ^ 40 * step p" using assms(5,6) by (simp_all add: D_def)
  obtain q' b r z where d:
    "fl64 (pc / 100) = Num q'" "fl64 (q' * R) = Num b" "fl64 (b + min_p p) = Num r"
    "fl64 (r / step p) = Num z" "math_round z = of_int k"
    using round_trip_chain [OF assms(3,4) D' c(5-10) v assms(7,8)] by blast
  have Rne: "R \<noteq> 0" using c(5) by simp
  have sne: "step p \<noteq> 0" using spos by simp
  have f: "fl64 (modelValue p - min_p p) = Num a" "fl64 (max_p p - min_p p) = Num R"
    using c(1,2) by (simp_all add: A_def D_def)
  have pct: "valueAsPercentage p = Num pc"
    by (simp add: valueAsPercentage_def Let_def f Rne c(3,4))
  have near: "\<bar>pc - (modelValue p - min_p p) / (max_p p - min_p p) * 100\<bar> \<le> 1 / 2 ^ 40"
    using c(11) by (simp add: A_def D_def)
  have nv: "watch_newValue (p\<lparr>modelValue := m\<rparr>) (Num pc) = Num (modelValue p)"
    using spos assms(1,2)
    by (simp add: watch_newValue_def Let_def f d(1-5) sne assms(8))
  show ?thesis
    using pct near nv by (auto simp: watch_position_x_def Let_def)
qed

lemma fixture_round_trip_percentage:
  "valueAsPercentage (fixture_props 6 2 12 2 False) = Num 40"
  by (simp add: valueAsPercentage_def fixture_props_def round_even_def fl64_at_m2 fl64_at_2
      fl64_at_3 fl64_at_5 Let_def)

text \<open>
  The theorem for claim C3 at \<open>modelValue = 6\<close>, \<open>min = 2\<close>, \<open>max = 12\<close>,
  \<open>step = 2\<close>: 40 percent, and a slider holding 8 derives and emits 6 there.
\<close>

theorem slider_round_trip_witness:
  "valueAsPercentage (fixture_props 6 2 12 2 False) = Num 40
   \<and> watch_newValue (fixture_props 8 2 12 2 False) (Num 40) = Num 6
   \<and> watch_position_x (fixture_props 8 2 12 2 False) (Num 40) = Some (Num 6)"
proof -
  have h: "min_p (fixture_props 6 2 12 2 False) \<le> modelValue (fixture_props 6 2 12 2 False)"
    "modelValue (fixture_props 6 2 12 2 False) \<le> max_p (fixture_props 6 2 12 2 False)"
    "1 / 2 ^ 500 \<le> step (fixture_props 6 2 12 2 False)"
    "step (fixture_props 6 2 12 2 False) \<le> 2 ^ 500"
    "step (fixture_props 6 2 12 2 False)
       \<le> max_p (fixture_props 6 2 12 2 False) - min_p (fixture_props 6 2 12 2 False)"
    "max_p (fixture_props 6 2 12 2 False) - min_p (fixture_props 6 2 12 2 False)
       \<le> 2 ^ 40 * step (fixture_props 6 2 12 2 False)"
    "\<bar>3::int\<bar> \<le> 2 ^ 40"
    "fl64 (of_int 3 * step (fixture_props 6 2 12 2 False))
       = Num (modelValue (fixture_props 6 2 12 2 False))"
    by (simp_all add: fixture_props_def round_even_def fl64_at_2)
  have u: "(fixture_props 6 2 12 2 False)\<lparr>modelValue := 8\<rparr> = fixture_props 8 2 12 2 False"
    "modelValue (fixture_props 6 2 12 2 False) = 6"
    "\<not> disabled (fixture_props 6 2 12 2 False)"
    by (simp_all add: fixture_props_def)
  from slider_round_trip [OF h, of 8] obtain pc where pc:
    "valueAsPercentage (fixture_props 6 2 12 2 False) = Num pc"
    "watch_newValue ((fixture_props 6 2 12 2 False)\<lparr>modelValue := 8\<rparr>) (Num pc)
       = Num (modelValue (fixture_props 6 2 12 2 False))"
    "watch_position_x ((fixture_props 6 2 12 2 False)\<lparr>modelValue := 8\<rparr>) (Num pc)
       = (if disabled (fixture_props 6 2 12 2 False)
             \<or> 8 = modelValue (fixture_props 6 2 12 2 False)
          then None else Some (Num (modelValue (fixture_props 6 2 12 2 False))))"
    by blast
  have "pc = 40" using pc(1) fixture_round_trip_percentage by simp
  then show ?thesis using pc fixture_round_trip_percentage by (simp add: u)
qed

lemma fixture_small_step_percentage:
  "valueAsPercentage (fixture_props 29 0 100 (1 / 2 ^ 48) False) = Num (29 - 1 / 2 ^ 48)"
  by (simp add: valueAsPercentage_def fixture_props_def round_even_def fl64_zero fl64_at_m2
      fl64_at_4 fl64_at_6 Let_def)

lemma fixture_small_step_value:
  "watch_newValue (fixture_props 29 0 100 (1 / 2 ^ 48) False) (Num (29 - 1 / 2 ^ 48))
     = Num (29 - 1 / 2 ^ 48)"
  by (simp add: watch_newValue_def fixture_props_def round_even_def math_round_def fl64_zero
      fl64_at_m2 fl64_at_4 fl64_at_6 fl64_at [of 52] Let_def)

lemma fixture_small_step_emits:
  "watch_position_x (fixture_props 29 0 100 (1 / 2 ^ 48) False) (Num (29 - 1 / 2 ^ 48))
     = Some (Num (29 - 1 / 2 ^ 48))"
proof -
  have "modelValue (fixture_props 29 0 100 (1 / 2 ^ 48) False) = 29"
    "\<not> disabled (fixture_props 29 0 100 (1 / 2 ^ 48) False)"
    by (simp_all add: fixture_props_def)
  then show ?thesis
    unfolding watch_position_x_def fixture_small_step_value Let_def by simp
qed

lemma fixture_from_min_percentage:
  "valueAsPercentage (fixture_props 1 1 11 2 False) = Num 0"
  by (simp add: valueAsPercentage_def fixture_props_def round_even_def fl64_zero fl64_at_3
      Let_def)

lemma fixture_from_min_value:
  "watch_newValue (fixture_props 1 1 11 2 False) (Num 0) = Num 2"
  by (simp add: watch_newValue_def fixture_props_def round_even_def math_round_def fl64_zero
      fl64_at_m1 fl64_at_0 fl64_at_1 fl64_at_3 Let_def)

text \<open>
  Claim C3 as stated fails. With \<open>min = 0\<close>, \<open>max = 100\<close>, \<open>step = 2 ^ -48\<close> and
  \<open>modelValue = 29\<close>, a multiple of the step, the percentage is \<open>29 - 2 ^ -48\<close>
  (28.999999999999996), the derivation gives \<open>29 - 2 ^ -48\<close> back and the callback
  emits it. With the steps counted from \<open>min\<close>, \<open>modelValue = 1\<close> under
  \<open>min = 1\<close>, \<open>max = 11\<close>, \<open>step = 2\<close> is rendered at 0 percent and comes back
  as 2.
\<close>

theorem slider_round_trip_counterexample:
  "valueAsPercentage (fixture_props 29 0 100 (1 / 2 ^ 48) False) = Num (29 - 1 / 2 ^ 48)
   \<and> watch_newValue (fixture_props 29 0 100 (1 / 2 ^ 48) False) (Num (29 - 1 / 2 ^ 48))
       = Num (29 - 1 / 2 ^ 48)
   \<and> watch_position_x (fixture_props 29 0 100 (1 / 2 ^ 48) False) (Num (29 - 1 / 2 ^ 48))
       = Some (Num (29 - 1 / 2 ^ 48))
   \<and> (29::real) - 1 / 2 ^ 48 \<noteq> 29
   \<and> on_step_grid 0 (1 / 2 ^ 48) 29
   \<and> valueAsPercentage (fixture_props 1 1 11 2 False) = Num 0
   \<and> watch_newValue (fixture_props 1 1 11 2 False) (Num 0) = Num 2
   \<and> on_step_grid 1 2 1"
  by (intro conjI fixture_small_step_percentage fixture_small_step_value
      fixture_small_step_emits fixture_from_min_percentage fixture_from_min_value)
     (simp_all add: on_step_grid_def)

text \<open>
  Claim C4. With \<open>min = 0\<close>, \<open>max = 100\<close>, \<open>step = 10\<close> the value derived from 44
  percent is 40 and from 46 percent is 50, whatever \<open>modelValue\<close> and \<open>disabled\<close>
  are; an enabled slider whose \<open>modelValue\<close> is 0 emits them.
\<close>

theorem step_quantization_44_46:
  "watch_newValue (fixture_props m 0 100 10 d) (Num 44) = Num 40
   \<and> watch_newValue (fixture_props m 0 100 10 d) (Num 46) = Num 50
   \<and> watch_position_x (fixture_props 0 0 100 10 False) (Num 44) = Some (Num 40)
   \<and> watch_position_x (fixture_props 0 0 100 10 False) (Num 46) = Some (Num 50)"
  by (simp add: watch_position_x_def watch_newValue_def fixture_props_def math_round_def
      round_even_def fl64_zero fl64_at_m2 fl64_at_2 fl64_at_5 fl64_at_6 Let_def)

lemma onMouseDown_position:
  "position (snd (onMouseDown mt cfg st ev el)) = position st"
  by (simp add: onMouseDown_def Let_def split: option.splits prod.splits)

text \<open>
  Claim C5. On a track 200 pixels wide with a thumb 20 pixels wide, a press 100 pixels
  from the track's left edge, with \<open>min = 0\<close>, \<open>max = 100\<close>, \<open>step = 1\<close>, computes
  the effective width 180, the target 90, clamped to 90, the percentage 50 and the value
  50; the engine's \<open>position.x\<close> becomes 50, and 50 is emitted unless \<open>modelValue\<close> is
  50 already.
\<close>

theorem click_to_jump_scenario:
  fixes trackRect thumbRect :: rect
  assumes "trackRect = \<lparr> r_left = tleft, r_top = ttop, r_width = 200, r_height = theight \<rparr>"
    and "thumbRect = \<lparr> r_left = hleft, r_top = htop, r_width = 20, r_height = hheight \<rparr>"
  shows "click_effectiveWidth trackRect thumbRect = 180
       \<and> click_targetX trackRect thumbRect (tleft + 100) = 90
       \<and> click_clampedX trackRect thumbRect (tleft + 100) = 90
       \<and> click_percentage trackRect thumbRect (tleft + 100) = 50
       \<and> click_newValue (fixture_props m 0 100 1 False) 50 = Num 50
       \<and> cr_emitted (handleTrackClick mt (fixture_props m 0 100 1 False)
            (Some (Element i trackRect tp)) (Some (Element j thumbRect hp)) ta st
            (MouseEvent tg (tleft + 100) y)) = (if m = 50 then None else Some (Num 50))
       \<and> pos_x (position (cr_engine (handleTrackClick mt (fixture_props m 0 100 1 False)
            (Some (Element i trackRect tp)) (Some (Element j thumbRect hp)) ta st
            (MouseEvent tg (tleft + 100) y)))) = Num 50"
proof -
  have w: "click_effectiveWidth trackRect thumbRect = 180"
    by (simp add: click_effectiveWidth_def assms)
  have t: "click_targetX trackRect thumbRect (tleft + 100) = 90"
    by (simp add: click_targetX_def assms)
  have c: "click_clampedX trackRect thumbRect (tleft + 100) = 90"
    by (simp add: click_clampedX_def w t)
  have pc: "click_percentage trackRect thumbRect (tleft + 100) = 50"
    by (simp add: click_percentage_def w c)
  have v: "click_newValue (fixture_props m 0 100 1 False) 50 = Num 50"
    by (simp add: click_newValue_def fixture_props_def math_round_def round_even_def
        fl64_zero fl64_at_m1 fl64_at_5 fl64_at_6 Let_def)
  have d: "\<not> disabled (fixture_props m 0 100 1 False)"
    "modelValue (fixture_props m 0 100 1 False) = m"
    by (simp_all add: fixture_props_def)
  show ?thesis
    using w t c pc v d by (auto simp: handleTrackClick_def onMouseDown_position Let_def)
qed

text \<open>
  The theorem for claim C5 on a track whose left edge is at 30, pressed at 130, with
  \<open>modelValue = 0\<close>: it emits 50.
\<close>

theorem click_to_jump_scenario_witness:
  "cr_emitted (handleTrackClick no_match (fixture_props 0 0 100 1 False)
        (Some fixture_track) (Some (fixture_thumb 30)) (Some (fixture_thumb 120))
        (init_engine None) (MouseEvent fixture_track 130 10)) = Some (Num 50)
   \<and> click_effectiveWidth (getBoundingClientRect fixture_track)
        (getBoundingClientRect (fixture_thumb 30)) = 180"
  using click_to_jump_scenario [of "getBoundingClientRect fixture_track" 30 0 24
      "getBoundingClientRect (fixture_thumb 30)" 30 2 20 0 no_match 2 None 3
      "Some fixture_track" "Some (fixture_thumb 120)" "init_engine None" fixture_track 10]
  by (simp add: fixture_track_def fixture_thumb_def)

text \<open>
  Claim C6. When \<open>disabled\<close> is true a pointer move never makes the slider emit, and
  during a drag session the engine's position is still set to the percentages of the
  pointer.
\<close>

theorem disabled_drag_moves_silently:
  assumes "disabled p"
  shows "snd (slider_onMouseMove p st ev) = None
       \<and> (isDragging st \<and> parentRect st = Some pr \<and> elementRect st = Some er
            \<and> ev_point ev = Some (cx, cy) \<longrightarrow>
          position (fst (slider_onMouseMove p st ev)) =
            \<lparr> pos_x = move_percentX slider_config pr er
                        (move_newX slider_config pr er (fst (relativeClickOffset st)) cx),
              pos_y = move_percentY pr
                        (move_newY slider_config pr er (snd (relativeClickOffset st)) cy) \<rparr>)"
proof (intro conjI impI)
  show "snd (slider_onMouseMove p st ev) = None"
    using assms by (simp add: slider_onMouseMove_def watch_position_x_def Let_def)
next
  assume a: "isDragging st \<and> parentRect st = Some pr \<and> elementRect st = Some er
            \<and> ev_point ev = Some (cx, cy)"
  then have "onMouseMove slider_config st ev =
     st \<lparr> position :=
            \<lparr> pos_x = move_percentX slider_config pr er
                        (move_newX slider_config pr er (fst (relativeClickOffset st)) cx),
              pos_y = move_percentY pr
                        (move_newY slider_config pr er (snd (relativeClickOffset st)) cy) \<rparr>,
          broadcasts := broadcasts st + 1 \<rparr>"
    using onMouseMove_dragging by blast
  then show "position (fst (slider_onMouseMove p st ev)) =
            \<lparr> pos_x = move_percentX slider_config pr er
                        (move_newX slider_config pr er (fst (relativeClickOffset st)) cx),
              pos_y = move_percentY pr
                        (move_newY slider_config pr er (snd (relativeClickOffset st)) cy) \<rparr>"
    by (simp add: slider_onMouseMove_def Let_def)
qed

lemma fixture_slider_move:
  "onMouseMove slider_config (fixture_dragging False True) (MouseEvent fixture_target 75 50) =
     (fixture_dragging False True)
       \<lparr> position := \<lparr> pos_x = Num (325 / 4), pos_y = Num 40 \<rparr>, broadcasts := 1 \<rparr>"
  by (simp add: fixture_dragging_eq slider_config_def onMouseMove_def move_newX_def
      move_newY_def move_percentX_def move_percentY_def js_div_def Let_def)

text \<open>
  The theorem for claim C6: a disabled slider dragged to 75 moves to 81.25 percent and
  emits nothing, where the same slider enabled emits 81.
\<close>

theorem disabled_drag_moves_silently_witness:
  "snd (slider_onMouseMove (fixture_props 0 0 100 1 True) (fixture_dragging False True)
          (MouseEvent fixture_target 75 50)) = None
   \<and> position (fst (slider_onMouseMove (fixture_props 0 0 100 1 True)
          (fixture_dragging False True) (MouseEvent fixture_target 75 50)))
       = \<lparr> pos_x = Num (325 / 4), pos_y = Num 40 \<rparr>
   \<and> snd (slider_onMouseMove (fixture_props 0 0 100 1 False) (fixture_dragging False True)
          (MouseEvent fixture_target 75 50)) = Some (Num 81)"
proof -
  have d: "disabled (fixture_props 0 0 100 1 True)" by (simp add: fixture_props_def)
  have e: "snd (slider_onMouseMove (fixture_props 0 0 100 1 False) (fixture_dragging False True)
          (MouseEvent fixture_target 75 50)) = Some (Num 81)"
    by (simp add: slider_onMouseMove_def fixture_slider_move)
       (simp add: fixture_dragging_eq watch_position_x_def watch_newValue_def
         fixture_props_def math_round_def round_even_def fl64_zero fl64_at_m1 fl64_at_6
         Let_def)
  have q: "position (fst (slider_onMouseMove (fixture_props 0 0 100 1 True)
          (fixture_dragging False True) (MouseEvent fixture_target 75 50)))
       = \<lparr> pos_x = Num (325 / 4), pos_y = Num 40 \<rparr>"
    by (simp add: slider_onMouseMove_def fixture_slider_move Let_def)
  show ?thesis
    using e q disabled_drag_moves_silently [OF d, of "fixture_dragging False True"
        "MouseEvent fixture_target 75 50"] by simp
qed

text \<open>
  Claim C7. A pointer-down whose origin element has an inclusive ancestor matching the
  configured ignore selector, or lies inside the configured ignore element, changes
  nothing: \<open>isDragging\<close>, the position and the document's listeners are what they
  were, and \<open>preventDefault\<close> is not called.
\<close>

theorem ignored_pointer_down_aborts:
  assumes "(\<exists>sel. ignore cfg = IgnoreSelector sel \<and> sel \<noteq> []
              \<and> closest mt sel (ev_target ev) \<noteq> None)
         \<or> (\<exists>g. ignore cfg = IgnoreRef (Some g) \<and> contains g (ev_target ev))"
  shows "onMouseDown mt cfg st ev el = (False, st)"
proof -
  from assms have "ignored mt cfg ev"
    by (auto simp: ignored_def)
  then show ?thesis
    by (simp add: onMouseDown_def split: option.splits)
qed

lemma fixture_icon_closest:
  "closest button_match ''.close-button'' fixture_icon = Some fixture_button"
  by (simp add: fixture_icon_def fixture_button_def button_match_def)

lemma fixture_icon_contained: "contains fixture_button fixture_icon"
  by (simp add: fixture_icon_def fixture_button_def)

lemma fixture_icon_drag:
  "isDragging (snd (onMouseDown button_match (fixture_config False False) (init_engine None)
     (MouseEvent fixture_icon 55 45) (Some fixture_target)))"
  by (simp add: onMouseDown_def fixture_target_def fixture_config_def ignored_def Let_def)

text \<open>
  The theorem for claim C7: a press on the icon inside the close button does not start
  a drag, with the button as a selector and as an element; the same press with no ignore
  option does.
\<close>

theorem ignored_pointer_down_aborts_witness:
  "onMouseDown button_match
     \<lparr> centered = False, useOffset = False, ignore = IgnoreSelector ''.close-button'' \<rparr>
     (init_engine None) (MouseEvent fixture_icon 55 45) (Some fixture_target)
   = (False, init_engine None)
   \<and> onMouseDown button_match
     \<lparr> centered = False, useOffset = False, ignore = IgnoreRef (Some fixture_button) \<rparr>
     (init_engine None) (MouseEvent fixture_icon 55 45) (Some fixture_target)
   = (False, init_engine None)
   \<and> \<not> isDragging (init_engine None) \<and> docListeners (init_engine None) = []
   \<and> isDragging (snd (onMouseDown button_match (fixture_config False False) (init_engine None)
     (MouseEvent fixture_icon 55 45) (Some fixture_target)))"
proof -
  have s: "onMouseDown button_match
     \<lparr> centered = False, useOffset = False, ignore = IgnoreSelector ''.close-button'' \<rparr>
     (init_engine None) (MouseEvent fixture_icon 55 45) (Some fixture_target)
   = (False, init_engine None)"
    using fixture_icon_closest by (intro ignored_pointer_down_aborts) simp
  have r: "onMouseDown button_match
     \<lparr> centered = False, useOffset = False, ignore = IgnoreRef (Some fixture_button) \<rparr>
     (init_engine None) (MouseEvent fixture_icon 55 45) (Some fixture_target)
   = (False, init_engine None)"
    using fixture_icon_contained by (intro ignored_pointer_down_aborts) simp
  show ?thesis
    using s r fixture_icon_drag by (simp add: init_engine_def)
qed

text \<open>
  Claim C8. onMouseDown on no element, on an element without a parent, or with a touch
  event that has no touch point, leaves the engine as it was: \<open>isDragging\<close>, the
  position and the document's listeners are unchanged.
\<close>

theorem pointer_down_without_element_or_touch:
  assumes "el = None \<or> (\<exists>e. el = Some e \<and> parentElement e = None)
         \<or> (\<exists>t. ev = TouchEvent t [])"
  shows "snd (onMouseDown mt cfg st ev el) = st"
  using assms
  by (auto simp: onMouseDown_def split: option.splits)

lemma touch_without_point_prevents_default:
  assumes "parentElement e \<noteq> None" "\<not> ignored mt cfg (TouchEvent t [])"
  shows "onMouseDown mt cfg st (TouchEvent t []) (Some e) = (True, st)"
  using assms by (auto simp: onMouseDown_def split: option.splits)

text \<open>
  The theorem for claim C8 at the three inputs, from the initial engine.
\<close>

theorem pointer_down_without_element_or_touch_witness:
  "snd (onMouseDown no_match (fixture_config False False) (init_engine None)
          (MouseEvent fixture_target 50 50) None) = init_engine None
   \<and> snd (onMouseDown no_match (fixture_config False False) (init_engine None)
          (MouseEvent fixture_parent 50 50) (Some fixture_parent)) = init_engine None
   \<and> snd (onMouseDown no_match (fixture_config False False) (init_engine None)
          (TouchEvent fixture_target []) (Some fixture_target)) = init_engine None
   \<and> \<not> isDragging (init_engine None) \<and> docListeners (init_engine None) = []"
proof -
  have p: "parentElement fixture_parent = None" by (simp add: fixture_parent_def)
  show ?thesis
    using pointer_down_without_element_or_touch [of None "MouseEvent fixture_target 50 50"
        no_match "fixture_config False False" "init_engine None"]
      pointer_down_without_element_or_touch [of "Some fixture_parent"
        "MouseEvent fixture_parent 50 50" no_match "fixture_config False False"
        "init_engine None"]
      pointer_down_without_element_or_touch [of "Some fixture_target"
        "TouchEvent fixture_target []" no_match "fixture_config False False"
        "init_engine None"]
      p
    by (simp add: init_engine_def)
qed

text \<open>
  Claim C9. With \<open>useOffset\<close> on and a captured parent no wider than the element, every
  pointer move of a drag session sets \<open>position.x\<close> to 0.
\<close>

theorem offset_width_not_positive_gives_zero:
  assumes "useOffset cfg" "isDragging st" "parentRect st = Some pr" "elementRect st = Some er"
    and "r_width pr \<le> r_width er" "ev_point ev = Some (cx, cy)"
  shows "pos_x (position (onMouseMove cfg st ev)) = Num 0"
  using assms by (simp add: onMouseMove_def move_percentX_def Let_def)

lemma fixture_wide_drag:
  "snd (onMouseDown no_match (fixture_config False True) (init_engine None)
          (MouseEvent fixture_wide 50 50) (Some fixture_wide)) =
     \<lparr> position = \<lparr> pos_x = Num 0, pos_y = Num 0 \<rparr>,
       isDragging = True,
       parentRect = Some \<lparr> r_left = 0, r_top = 0, r_width = 100, r_height = 100 \<rparr>,
       elementRect = Some \<lparr> r_left = 0, r_top = 40, r_width = 120, r_height = 20 \<rparr>,
       relativeClickOffset = (50, 10),
       docListeners = [(''mousemove'', OnMouseMove), (''mouseup'', OnMouseUp),
                       (''touchend'', OnMouseUp), (''touchmove'', OnMouseMove)],
       broadcasts = 0 \<rparr>"
  by (simp add: onMouseDown_def fixture_wide_def fixture_parent_def
      fixture_config_def ignored_def init_engine_def addEventListener_def Let_def)

text \<open>
  The theorem for claim C9 for an element 120 pixels wide in a parent of 100.
\<close>

theorem offset_width_not_positive_gives_zero_witness:
  "pos_x (position (onMouseMove (fixture_config False True)
      (snd (onMouseDown no_match (fixture_config False True) (init_engine None)
          (MouseEvent fixture_wide 50 50) (Some fixture_wide)))
      (MouseEvent fixture_wide 90 50))) = Num 0"
  using offset_width_not_positive_gives_zero [of "fixture_config False True"
      "snd (onMouseDown no_match (fixture_config False True) (init_engine None)
          (MouseEvent fixture_wide 50 50) (Some fixture_wide))"
      "\<lparr> r_left = 0, r_top = 0, r_width = 100, r_height = 100 \<rparr>"
      "\<lparr> r_left = 0, r_top = 40, r_width = 120, r_height = 20 \<rparr>"
      "MouseEvent fixture_wide 90 50" 90 50]
  by (simp add: fixture_wide_drag) (simp add: fixture_config_def)

text \<open>
  Claim C10. When \<open>disabled\<close> is true handleTrackClick leaves the engine as it was,
  emits nothing and does not call onMouseDown.
\<close>

theorem disabled_track_click_noop:
  assumes "disabled p"
  shows "handleTrackClick mt p tr th ta st ev =
           \<lparr> cr_engine = st, cr_emitted = None, cr_dragInit = False \<rparr>"
  using assms by (simp add: handleTrackClick_def)

lemma fixture_enabled_click:
  "cr_dragInit (handleTrackClick no_match (fixture_props 0 0 100 1 False)
        (Some fixture_track) (Some (fixture_thumb 30)) (Some (fixture_thumb 120))
        (init_engine None) (MouseEvent fixture_track 130 10))
   \<and> isDragging (cr_engine (handleTrackClick no_match (fixture_props 0 0 100 1 False)
        (Some fixture_track) (Some (fixture_thumb 30)) (Some (fixture_thumb 120))
        (init_engine None) (MouseEvent fixture_track 130 10)))"
  by (simp add: handleTrackClick_def fixture_props_def fixture_track_def fixture_thumb_def
      onMouseDown_def slider_config_def ignored_def Let_def)

text \<open>
  The theorem for claim C10: the press of claim C5 on a disabled slider does nothing,
  where on the enabled slider it moves the position and starts a drag.
\<close>

theorem disabled_track_click_noop_witness:
  "handleTrackClick no_match (fixture_props 0 0 100 1 True)
        (Some fixture_track) (Some (fixture_thumb 30)) (Some (fixture_thumb 120))
        (init_engine None) (MouseEvent fixture_track 130 10)
     = \<lparr> cr_engine = init_engine None, cr_emitted = None, cr_dragInit = False \<rparr>
   \<and> cr_dragInit (handleTrackClick no_match (fixture_props 0 0 100 1 False)
        (Some fixture_track) (Some (fixture_thumb 30)) (Some (fixture_thumb 120))
        (init_engine None) (MouseEvent fixture_track 130 10))"
proof -
  have d: "disabled (fixture_props 0 0 100 1 True)" by (simp add: fixture_props_def)
  show ?thesis
    using disabled_track_click_noop [OF d] fixture_enabled_click by simp
qed

end
